theory Spec2Isabelle
  imports Complex_Main
begin

section \<open>Numbers and errors\<close>

text \<open>
  JavaScript numbers are modelled as \<^typ>\<open>real\<close>; array indices and counters as \<^typ>\<open>nat\<close>.
  Reals have neither NaN nor infinities, so every place where the source can leave the
  finite numbers (a division by zero) or raise (reading a property of \<open>undefined\<close>) is an
  explicit branch that returns an error value.
\<close>

datatype error =
    TypeError   \<comment> \<open>a property of \<open>undefined\<close> was read\<close>
  | NonFinite   \<comment> \<open>a division by zero: the JavaScript result is an infinity or NaN\<close>

text \<open>\<open>x || d\<close> on an optional number: \<open>undefined\<close> and \<open>0\<close> are both falsy.\<close>

definition orDefault :: "real option \<Rightarrow> real \<Rightarrow> real" where
  "orDefault v d = (case v of None \<Rightarrow> d | Some n \<Rightarrow> if n = 0 then d else n)"

text \<open>\<open>Math.round\<close>: the nearest integer, halves rounded towards plus infinity.\<close>

definition Math_round :: "real \<Rightarrow> real" where
  "Math_round v = of_int \<lfloor>v + 1 / 2\<rfloor>"

section \<open>utils/difficultyManager.ts\<close>

text \<open>
  Record fields carry a prefix (\<open>lv_\<close> for \<open>DifficultyLevel\<close>, \<open>gp_\<close> for
  \<open>GameParameters\<close>) because both interfaces have fields \<open>speed\<close> and \<open>spawnRate\<close>.
  The optional field \<open>scoreMultiplier?\<close> is an option.
\<close>

record DifficultyLevel =
  lv_score :: real
  lv_speed :: real
  lv_spawnRate :: real
  lv_scoreMultiplier :: "real option"

record GameParameters =
  gp_speed :: real
  gp_spawnRate :: real
  gp_scoreMultiplier :: real
  gp_difficultyLevel :: nat
  gp_nextMilestone :: "real option"

text \<open>\<open>GAME_SETTINGS.DIFFICULTY_LEVELS\<close> of utils/constants.ts.\<close>

definition DIFFICULTY_LEVELS :: "DifficultyLevel list" where
  "DIFFICULTY_LEVELS =
    [\<lparr>lv_score = 0, lv_speed = 5, lv_spawnRate = 2, lv_scoreMultiplier = None\<rparr>,
     \<lparr>lv_score = 100, lv_speed = 6, lv_spawnRate = 18 / 10, lv_scoreMultiplier = None\<rparr>,
     \<lparr>lv_score = 250, lv_speed = 7, lv_spawnRate = 16 / 10, lv_scoreMultiplier = None\<rparr>,
     \<lparr>lv_score = 500, lv_speed = 8, lv_spawnRate = 14 / 10, lv_scoreMultiplier = None\<rparr>,
     \<lparr>lv_score = 1000, lv_speed = 9, lv_spawnRate = 12 / 10, lv_scoreMultiplier = None\<rparr>,
     \<lparr>lv_score = 2000, lv_speed = 10, lv_spawnRate = 1, lv_scoreMultiplier = None\<rparr>]"

text \<open>
  The loop of \<open>getDifficultyLevelIndex\<close>, \<open>for (i = length - 1; i >= 0; i--)\<close>: the third
  argument is \<open>i + 1\<close>, the number of levels still to be looked at. The loop leaves with
  \<open>levelIndex = i\<close> at the first match and with the initial \<open>levelIndex = 0\<close> when it runs
  out.
\<close>

fun levelScan :: "DifficultyLevel list \<Rightarrow> real \<Rightarrow> nat \<Rightarrow> nat" where
  "levelScan levels s 0 = 0"
| "levelScan levels s (Suc i) =
     (if s \<ge> lv_score (levels ! i) then i else levelScan levels s i)"

definition getDifficultyLevelIndex :: "DifficultyLevel list \<Rightarrow> real \<Rightarrow> nat" where
  "getDifficultyLevelIndex levels s = levelScan levels s (length levels)"

text \<open>\<open>length - 1\<close> is computed on integers: it is \<open>-1\<close> for the empty table.\<close>

definition getNextMilestone :: "DifficultyLevel list \<Rightarrow> real \<Rightarrow> real option" where
  "getNextMilestone levels s =
     (let currentLevelIndex = getDifficultyLevelIndex levels s
      in if int currentLevelIndex \<ge> int (length levels) - 1 then None
         else Some (lv_score (levels ! (currentLevelIndex + 1))))"

text \<open>
  \<open>calculateGameParameters\<close>. With an empty table \<open>currentLevel\<close> is \<open>undefined\<close> and
  reading \<open>currentLevel.speed\<close> raises. The quotient \<open>progressToNextLevel\<close> has a zero
  denominator only when the score lies below a first threshold that the second level
  repeats; the result is then not a finite number.
\<close>

definition calculateGameParameters :: "DifficultyLevel list \<Rightarrow> real \<Rightarrow> error + GameParameters" where
  "calculateGameParameters levels s =
     (let levelIndex = getDifficultyLevelIndex levels s;
          nextMilestone = getNextMilestone levels s
      in if levelIndex \<ge> length levels then Inl TypeError
         else
           let currentLevel = levels ! levelIndex
           in if nextMilestone = None \<or> s = lv_score currentLevel then
                Inr \<lparr>gp_speed = lv_speed currentLevel,
                     gp_spawnRate = lv_spawnRate currentLevel,
                     gp_scoreMultiplier = orDefault (lv_scoreMultiplier currentLevel) 1,
                     gp_difficultyLevel = levelIndex,
                     gp_nextMilestone = nextMilestone\<rparr>
              else
                let nextLevel = levels ! (levelIndex + 1)
                in if lv_score nextLevel - lv_score currentLevel = 0 then Inl NonFinite
                   else
                     let progressToNextLevel =
                           (s - lv_score currentLevel) / (lv_score nextLevel - lv_score currentLevel);
                         speed = lv_speed currentLevel
                           + progressToNextLevel * (lv_speed nextLevel - lv_speed currentLevel);
                         spawnRate = lv_spawnRate currentLevel
                           + progressToNextLevel * (lv_spawnRate nextLevel - lv_spawnRate currentLevel);
                         currentMultiplier = orDefault (lv_scoreMultiplier currentLevel) 1;
                         nextMultiplier = orDefault (lv_scoreMultiplier nextLevel) 1;
                         scoreMultiplier = currentMultiplier
                           + progressToNextLevel * (nextMultiplier - currentMultiplier)
                     in Inr \<lparr>gp_speed = speed,
                             gp_spawnRate = spawnRate,
                             gp_scoreMultiplier = scoreMultiplier,
                             gp_difficultyLevel = levelIndex,
                             gp_nextMilestone = nextMilestone\<rparr>)"

definition isNewDifficultyLevel :: "DifficultyLevel list \<Rightarrow> real \<Rightarrow> real \<Rightarrow> bool" where
  "isNewDifficultyLevel levels previousScore currentScore =
     (let previousLevel = getDifficultyLevelIndex levels previousScore;
          currentLevel = getDifficultyLevelIndex levels currentScore
      in currentLevel > previousLevel)"

definition difficultyNames :: "string list" where
  "difficultyNames = [''Easy'', ''Normal'', ''Challenging'', ''Hard'', ''Expert'', ''Master'']"

definition getDifficultyName :: "nat \<Rightarrow> string" where
  "getDifficultyName levelIndex =
     (let clampedIndex = min levelIndex (length difficultyNames - 1)
      in difficultyNames ! clampedIndex)"

section \<open>The game state provider: difficulty updates and the score setter\<close>

text \<open>
  The part of the provider's state that \<open>updateDifficulty\<close> writes. \<open>dismissTimers\<close>
  counts the \<open>setTimeout(..., 3000)\<close> calls: one is made with each notification raised.
\<close>

record DifficultyState =
  gameParameters :: GameParameters
  showDifficultyNotification :: bool
  difficultyName :: string
  previousScoreRef :: real
  dismissTimers :: nat

definition updateDifficulty :: "DifficultyLevel list \<Rightarrow> real \<Rightarrow> DifficultyState \<Rightarrow> error + DifficultyState" where
  "updateDifficulty levels newScore st =
     (case calculateGameParameters levels newScore of
        Inl e \<Rightarrow> Inl e
      | Inr params \<Rightarrow>
          let st1 = st\<lparr>gameParameters := params\<rparr>;
              st2 = (if isNewDifficultyLevel levels (previousScoreRef st1) newScore
                     then st1\<lparr>difficultyName := getDifficultyName (gp_difficultyLevel params),
                              showDifficultyNotification := True,
                              dismissTimers := dismissTimers st1 + 1\<rparr>
                     else st1)
          in Inr (st2\<lparr>previousScoreRef := newScore\<rparr>))"

text \<open>
  The effect \<open>useEffect(() => { if (isPlaying) updateDifficulty(score) }, [score, ...])\<close>
  calls \<open>updateDifficulty\<close> once for each value the score takes while playing;
  \<open>scoreUpdates\<close> runs these calls in order.
\<close>

fun scoreUpdates :: "DifficultyLevel list \<Rightarrow> real list \<Rightarrow> DifficultyState \<Rightarrow> error + DifficultyState" where
  "scoreUpdates levels [] st = Inr st"
| "scoreUpdates levels (s # ss) st =
     (case updateDifficulty levels s st of
        Inl e \<Rightarrow> Inl e
      | Inr st' \<Rightarrow> scoreUpdates levels ss st')"

text \<open>\<open>setScoreWithMultiplier\<close>: the new value of \<open>score\<close>.\<close>

definition setScoreWithMultiplier :: "bool \<Rightarrow> GameParameters \<Rightarrow> real \<Rightarrow> real \<Rightarrow> real" where
  "setScoreWithMultiplier isPlaying params baseScoreIncrease current =
     (if isPlaying then
        let multipliedIncrease = baseScoreIncrease * gp_scoreMultiplier params
        in current + Math_round multipliedIncrease
      else current)"

section \<open>The obstacles component\<close>

subsection \<open>Data\<close>

datatype ObstacleType = coral | seaweed | rock | shark | jellyfish

datatype MovementPattern = upDown | leftRight | zigzag | static

record Vector3 =
  vx :: real
  vy :: real
  vz :: real

text \<open>
  The interface \<open>Obstacle\<close>, fields prefixed with \<open>ob_\<close>. \<open>movementPattern\<close> is optional
  in the interface; \<open>amplitude\<close> and \<open>frequency\<close> are read with a non-null assertion and
  are numbers here (\<open>spawnObstacle\<close>, the only constructor, always sets them).
\<close>

record Obstacle =
  ob_id :: nat
  ob_type :: ObstacleType
  ob_position :: Vector3
  ob_scale :: Vector3
  ob_rotation :: Vector3
  ob_speed :: real
  ob_active :: bool
  ob_color :: string
  ob_animationOffset :: real
  ob_movementPattern :: "MovementPattern option"
  ob_amplitude :: real
  ob_frequency :: real

record ObstacleConfig =
  cf_scale :: Vector3
  cf_movement :: MovementPattern
  cf_yPosition :: real
  cf_amplitude :: "real option"
  cf_frequency :: "real option"
  cf_collisionRadius :: real

fun obstacleColors :: "ObstacleType \<Rightarrow> string" where
  "obstacleColors coral = ''#ff6f61''"
| "obstacleColors seaweed = ''#2e8b57''"
| "obstacleColors rock = ''#696969''"
| "obstacleColors shark = ''#708090''"
| "obstacleColors jellyfish = ''#9370db''"

fun obstacleConfigs :: "ObstacleType \<Rightarrow> ObstacleConfig" where
  "obstacleConfigs coral =
     \<lparr>cf_scale = \<lparr>vx = 8 / 10, vy = 15 / 10, vz = 8 / 10\<rparr>, cf_movement = static,
      cf_yPosition = - (35 / 10), cf_amplitude = None, cf_frequency = None,
      cf_collisionRadius = 1\<rparr>"
| "obstacleConfigs seaweed =
     \<lparr>cf_scale = \<lparr>vx = 5 / 10, vy = 25 / 10, vz = 5 / 10\<rparr>, cf_movement = leftRight,
      cf_yPosition = - 3, cf_amplitude = Some (2 / 10), cf_frequency = Some 2,
      cf_collisionRadius = 8 / 10\<rparr>"
| "obstacleConfigs rock =
     \<lparr>cf_scale = \<lparr>vx = 12 / 10, vy = 12 / 10, vz = 12 / 10\<rparr>, cf_movement = static,
      cf_yPosition = - 2, cf_amplitude = None, cf_frequency = None,
      cf_collisionRadius = 11 / 10\<rparr>"
| "obstacleConfigs shark =
     \<lparr>cf_scale = \<lparr>vx = 15 / 10, vy = 7 / 10, vz = 7 / 10\<rparr>, cf_movement = zigzag,
      cf_yPosition = 0, cf_amplitude = Some (15 / 10), cf_frequency = Some (5 / 10),
      cf_collisionRadius = 12 / 10\<rparr>"
| "obstacleConfigs jellyfish =
     \<lparr>cf_scale = \<lparr>vx = 8 / 10, vy = 12 / 10, vz = 8 / 10\<rparr>, cf_movement = upDown,
      cf_yPosition = 1, cf_amplitude = Some (15 / 10), cf_frequency = Some (8 / 10),
      cf_collisionRadius = 7 / 10\<rparr>"

text \<open>The constants of \<open>GAME_SETTINGS\<close> that the component reads.\<close>

definition COLLISION_THRESHOLD :: real where
  "COLLISION_THRESHOLD = 8 / 10"

definition OBSTACLE_SPAWN_RATE :: real where
  "OBSTACLE_SPAWN_RATE = 2000"

definition OBSTACLE_SPAWN_DISTANCE :: real where
  "OBSTACLE_SPAWN_DISTANCE = 100"

definition INITIAL_SPEED :: real where
  "INITIAL_SPEED = 5 / 10"

text \<open>
  The component's state: the React state \<open>obstacles\<close>, the three refs, and the number of
  times the callback \<open>onCollision\<close> has been invoked.
\<close>

record ObstaclesState =
  obstacles :: "Obstacle list"
  lastSpawnTimeRef :: real
  obstacleCounterRef :: nat
  hasCollidedRef :: bool
  onCollisionCalls :: nat

text \<open>
  What the component reads from outside. \<open>nemoRef.current\<close> gives the player's world
  position and \<open>scale.x\<close>. \<open>obstaclesGroupRef.current\<close> is the rendered group:
  \<open>getObjectByName(`obstacle-${id}`)\<close> followed by \<open>getWorldPosition\<close> is a partial
  function from obstacle ids to positions.
\<close>

record Nemo =
  nemo_position :: Vector3
  nemo_scale_x :: real

type_synonym Group = "nat \<Rightarrow> Vector3 option"

text \<open>The four calls of \<open>Math.random()\<close> in \<open>spawnObstacle\<close>, each in \<open>[0, 1)\<close>.\<close>

record RandomDraws =
  rnd_type :: real
  rnd_x :: real
  rnd_y :: real
  rnd_offset :: real

definition validDraws :: "RandomDraws \<Rightarrow> bool" where
  "validDraws r = (0 \<le> rnd_type r \<and> rnd_type r < 1 \<and> 0 \<le> rnd_x r \<and> rnd_x r < 1
     \<and> 0 \<le> rnd_y r \<and> rnd_y r < 1 \<and> 0 \<le> rnd_offset r \<and> rnd_offset r < 1)"

subsection \<open>Spawning\<close>

definition getDifficultyFactor :: "real \<Rightarrow> real" where
  "getDifficultyFactor currentScore = 1 + currentScore / 5000"

definition obstacleTypes :: "ObstacleType list" where
  "obstacleTypes = [coral, seaweed, rock, shark, jellyfish]"

text \<open>
  \<open>spawnObstacle\<close>, with \<open>Date.now()\<close> and the random draws as arguments. When the
  difficulty factor is zero the interval \<open>2000 / 0\<close> is plus infinity and no time
  difference reaches it. An index outside \<open>obstacleTypes\<close> would give an \<open>undefined\<close>
  type and configuration, and reading \<open>config.yPosition\<close> would raise.
\<close>

definition spawnObstacle :: "bool \<Rightarrow> real \<Rightarrow> real \<Rightarrow> RandomDraws \<Rightarrow> ObstaclesState \<Rightarrow> error + ObstaclesState" where
  "spawnObstacle isPlaying currentScore currentTime rnd st =
     (if \<not> isPlaying then Inr st
      else
        let difficulty = getDifficultyFactor currentScore
        in if difficulty = 0 then Inr st
           else
             let spawnInterval = OBSTACLE_SPAWN_RATE / difficulty
             in if currentTime - lastSpawnTimeRef st < spawnInterval then Inr st
                else
                  let st1 = st\<lparr>lastSpawnTimeRef := currentTime\<rparr>;
                      randomTypeIndex = \<lfloor>rnd_type rnd * real (length obstacleTypes)\<rfloor>
                  in if randomTypeIndex < 0 \<or> randomTypeIndex \<ge> int (length obstacleTypes)
                     then Inl TypeError
                     else
                       let type = obstacleTypes ! nat randomTypeIndex;
                           config = obstacleConfigs type;
                           xPos = rnd_x rnd * 10 - 5;
                           yPos = (if type \<noteq> coral \<and> type \<noteq> seaweed
                                   then cf_yPosition config + (rnd_y rnd * 3 - 15 / 10)
                                   else cf_yPosition config);
                           zPos = - OBSTACLE_SPAWN_DISTANCE;
                           newObstacle =
                             \<lparr>ob_id = obstacleCounterRef st1,
                              ob_type = type,
                              ob_position = \<lparr>vx = xPos, vy = yPos, vz = zPos\<rparr>,
                              ob_scale = cf_scale config,
                              ob_rotation = \<lparr>vx = 0, vy = 0, vz = 0\<rparr>,
                              ob_speed = INITIAL_SPEED * difficulty,
                              ob_active = True,
                              ob_color = obstacleColors type,
                              ob_animationOffset = rnd_offset rnd * pi * 2,
                              ob_movementPattern = Some (cf_movement config),
                              ob_amplitude = orDefault (cf_amplitude config) 0,
                              ob_frequency = orDefault (cf_frequency config) 0\<rparr>
                       in Inr (st1\<lparr>obstacleCounterRef := obstacleCounterRef st1 + 1,
                                   obstacles := obstacles st1 @ [newObstacle]\<rparr>))"

subsection \<open>Collision detection\<close>

text \<open>\<open>Vector3.distanceTo\<close>: the square root of \<open>dx*dx + dy*dy + dz*dz\<close>.\<close>

definition distanceTo :: "Vector3 \<Rightarrow> Vector3 \<Rightarrow> real" where
  "distanceTo a b =
     (let dx = vx a - vx b; dy = vy a - vy b; dz = vz a - vz b
      in sqrt (dx * dx + dy * dy + dz * dz))"

text \<open>
  The body of the \<open>forEach\<close> callback. Its \<open>return\<close> statements leave the callback only,
  and \<open>forEach\<close> goes on to the next element, so the loop is a fold over the whole list.
\<close>

definition collisionCallback :: "Vector3 \<Rightarrow> real \<Rightarrow> Group \<Rightarrow> Obstacle \<Rightarrow> ObstaclesState \<Rightarrow> ObstaclesState" where
  "collisionCallback nemoPosition nemoRadius groupObj obstacle st =
     (if \<not> ob_active obstacle then st
      else
        case groupObj (ob_id obstacle) of
          None \<Rightarrow> st
        | Some obstaclePosition \<Rightarrow>
            let obstacleRadius = cf_collisionRadius (obstacleConfigs (ob_type obstacle));
                distance = distanceTo nemoPosition obstaclePosition
            in if distance < nemoRadius + obstacleRadius
               then st\<lparr>hasCollidedRef := True, onCollisionCalls := onCollisionCalls st + 1\<rparr>
               else st)"

text \<open>
  \<open>checkCollisions\<close>. The list \<open>rendered\<close> is the value of \<open>obstacles\<close> that the closure
  captured at the last render.
\<close>

definition checkCollisions :: "bool \<Rightarrow> Nemo option \<Rightarrow> Group option \<Rightarrow> Obstacle list \<Rightarrow> ObstaclesState \<Rightarrow> ObstaclesState" where
  "checkCollisions isPlaying nemoRef obstaclesGroupRef rendered st =
     (case nemoRef of
        None \<Rightarrow> st
      | Some nemo \<Rightarrow>
          (case obstaclesGroupRef of
             None \<Rightarrow> st
           | Some groupObj \<Rightarrow>
               if hasCollidedRef st then st
               else if \<not> isPlaying then st
               else
                 let nemoPosition = nemo_position nemo;
                     nemoSize = nemo_scale_x nemo;
                     nemoRadius = 5 / 10 * nemoSize * COLLISION_THRESHOLD
                 in fold (collisionCallback nemoPosition nemoRadius groupObj) rendered st))"

text \<open>The effect that runs when \<open>isPlaying\<close> changes.\<close>

definition resetCollisionState :: "bool \<Rightarrow> ObstaclesState \<Rightarrow> ObstaclesState" where
  "resetCollisionState isPlaying st = (if isPlaying then st\<lparr>hasCollidedRef := False\<rparr> else st)"

subsection \<open>The frame callback\<close>

text \<open>
  The function mapped over the obstacles in \<open>useFrame\<close>; its value is the obstacle it
  returns. The writes to the mesh (position copy, shark rotation, jellyfish pulse) change
  the rendered scene only and are left out.
\<close>

definition updateObstacle :: "Group option \<Rightarrow> real \<Rightarrow> real \<Rightarrow> Obstacle \<Rightarrow> Obstacle" where
  "updateObstacle obstaclesGroupRef elapsedTime delta obstacle =
     (if \<not> ob_active obstacle then obstacle
      else
        case (case obstaclesGroupRef of None \<Rightarrow> None | Some groupObj \<Rightarrow> groupObj (ob_id obstacle)) of
          None \<Rightarrow> obstacle
        | Some obstacleMesh \<Rightarrow>
            let p0 = ob_position obstacle;
                p1 = p0\<lparr>vz := vz p0 + ob_speed obstacle * delta * 60\<rparr>;
                wave = sin ((elapsedTime + ob_animationOffset obstacle) * ob_frequency obstacle)
                         * ob_amplitude obstacle * delta;
                newPosition =
                  (if ob_movementPattern obstacle = Some upDown then p1\<lparr>vy := vy p1 + wave\<rparr>
                   else if ob_movementPattern obstacle = Some leftRight then p1\<lparr>vx := vx p1 + wave\<rparr>
                   else if ob_movementPattern obstacle = Some zigzag then
                     let p2 = p1\<lparr>vx := vx p1 + wave\<rparr>
                     in if ob_type obstacle = shark
                        then p2\<lparr>vy := vy p2
                               + sin ((elapsedTime + ob_animationOffset obstacle) * ob_frequency obstacle * 2)
                                   * (ob_amplitude obstacle / 3) * delta\<rparr>
                        else p2
                   else p1);
                isOutOfBounds = vz newPosition > 20
            in obstacle\<lparr>ob_position := newPosition, ob_active := \<not> isOutOfBounds\<rparr>)"

definition updateObstacles :: "Group option \<Rightarrow> real \<Rightarrow> real \<Rightarrow> Obstacle list \<Rightarrow> Obstacle list" where
  "updateObstacles obstaclesGroupRef elapsedTime delta prevObstacles =
     filter ob_active (map (updateObstacle obstaclesGroupRef elapsedTime delta) prevObstacles)"

record FrameInput =
  fi_isPlaying :: bool
  fi_score :: real
  fi_now :: real
  fi_random :: RandomDraws
  fi_nemoRef :: "Nemo option"
  fi_groupRef :: "Group option"
  fi_elapsedTime :: real
  fi_delta :: real

text \<open>
  \<open>useFrame\<close>: spawn, check collisions on the rendered list, then apply the queued state
  updates in order (the append made by \<open>spawnObstacle\<close>, then the map and filter).
\<close>

definition useFrame :: "FrameInput \<Rightarrow> ObstaclesState \<Rightarrow> error + ObstaclesState" where
  "useFrame inp st =
     (if \<not> fi_isPlaying inp \<or> fi_groupRef inp = None then Inr st
      else
        case spawnObstacle (fi_isPlaying inp) (fi_score inp) (fi_now inp) (fi_random inp) st of
          Inl e \<Rightarrow> Inl e
        | Inr st1 \<Rightarrow>
            let st2 = checkCollisions (fi_isPlaying inp) (fi_nemoRef inp) (fi_groupRef inp)
                        (obstacles st) st1
            in Inr (st2\<lparr>obstacles :=
                 updateObstacles (fi_groupRef inp) (fi_elapsedTime inp) (fi_delta inp) (obstacles st2)\<rparr>))"

fun runFrames :: "FrameInput list \<Rightarrow> ObstaclesState \<Rightarrow> error + ObstaclesState" where
  "runFrames [] st = Inr st"
| "runFrames (inp # inps) st =
     (case useFrame inp st of
        Inl e \<Rightarrow> Inl e
      | Inr st' \<Rightarrow> runFrames inps st')"

section \<open>Readings of the specification\<close>

text \<open>
  The specification speaks of a tier's raw score multiplier, one when the tier does not
  specify it. This is that reading, to be compared with what \<open>calculateGameParameters\<close>
  returns.
\<close>

definition rawMultiplier :: "DifficultyLevel \<Rightarrow> real" where
  "rawMultiplier l = (case lv_scoreMultiplier l of None \<Rightarrow> 1 | Some m \<Rightarrow> m)"

text \<open>
  The specification counts a new-tier event for each score update that crosses a
  threshold: the update from \<open>p\<close> to \<open>s\<close> crosses one when some level's threshold lies
  in \<open>(p, s]\<close>. \<open>crossingCount\<close> counts these updates in a sequence that starts from
  the previous score \<open>p\<close>.
\<close>

fun crossingCount :: "DifficultyLevel list \<Rightarrow> real \<Rightarrow> real list \<Rightarrow> nat" where
  "crossingCount levels p [] = 0"
| "crossingCount levels p (s # ss) =
     (if list_ex (\<lambda>l. p < lv_score l \<and> lv_score l \<le> s) levels then 1 else 0)
     + crossingCount levels s ss"

text \<open>
  The specification's collision test: the player's radius is
  \<open>0.5 * playerSizeScale * 0.8\<close>, and an obstacle is hit when the Euclidean distance
  between the player and the obstacle's rendered position is strictly less than the
  player's radius plus the collision radius of the obstacle's kind.
\<close>

definition playerRadius :: "real \<Rightarrow> real" where
  "playerRadius playerSizeScale = 5 / 10 * playerSizeScale * (8 / 10)"

definition euclidean :: "Vector3 \<Rightarrow> Vector3 \<Rightarrow> real" where
  "euclidean a b = sqrt ((vx a - vx b)\<^sup>2 + (vy a - vy b)\<^sup>2 + (vz a - vz b)\<^sup>2)"

definition overlaps :: "Vector3 \<Rightarrow> real \<Rightarrow> Group \<Rightarrow> Obstacle \<Rightarrow> bool" where
  "overlaps playerPosition radius groupObj obstacle =
     (case groupObj (ob_id obstacle) of
        None \<Rightarrow> False
      | Some obstaclePosition \<Rightarrow>
          euclidean playerPosition obstaclePosition
            < radius + cf_collisionRadius (obstacleConfigs (ob_type obstacle)))"

section \<open>Initial states and sample data\<close>

text \<open>
  The initial values of the provider's state (\<open>calculateGameParameters(0)\<close> on the shipped
  table, \<open>getDifficultyName(0)\<close>) and of the obstacles component, and a rock as
  \<open>spawnObstacle\<close> builds it.
\<close>

definition initialDifficultyState :: DifficultyState where
  "initialDifficultyState =
     \<lparr>gameParameters = \<lparr>gp_speed = 5, gp_spawnRate = 2, gp_scoreMultiplier = 1,
                         gp_difficultyLevel = 0, gp_nextMilestone = Some 100\<rparr>,
      showDifficultyNotification = False,
      difficultyName = ''Easy'',
      previousScoreRef = 0,
      dismissTimers = 0\<rparr>"

definition initialObstaclesState :: ObstaclesState where
  "initialObstaclesState =
     \<lparr>obstacles = [], lastSpawnTimeRef = 0, obstacleCounterRef = 0,
      hasCollidedRef = False, onCollisionCalls = 0\<rparr>"

definition rockObstacle :: "nat \<Rightarrow> Obstacle" where
  "rockObstacle n =
     \<lparr>ob_id = n, ob_type = rock,
      ob_position = \<lparr>vx = 0, vy = - 2, vz = - 100\<rparr>,
      ob_scale = \<lparr>vx = 12 / 10, vy = 12 / 10, vz = 12 / 10\<rparr>,
      ob_rotation = \<lparr>vx = 0, vy = 0, vz = 0\<rparr>,
      ob_speed = 5 / 10, ob_active = True, ob_color = ''#696969'',
      ob_animationOffset = 0, ob_movementPattern = Some static,
      ob_amplitude = 0, ob_frequency = 0\<rparr>"

text \<open>
  A shark as \<open>spawnObstacle\<close> builds it (with animation offset zero), a tuple of random
  draws, and a frame at 60 frames per second with no player in the scene.
\<close>

definition sharkObstacle :: "nat \<Rightarrow> Obstacle" where
  "sharkObstacle n =
     \<lparr>ob_id = n, ob_type = shark,
      ob_position = \<lparr>vx = 0, vy = 0, vz = - 100\<rparr>,
      ob_scale = \<lparr>vx = 15 / 10, vy = 7 / 10, vz = 7 / 10\<rparr>,
      ob_rotation = \<lparr>vx = 0, vy = 0, vz = 0\<rparr>,
      ob_speed = 5 / 10, ob_active = True, ob_color = ''#708090'',
      ob_animationOffset = 0, ob_movementPattern = Some zigzag,
      ob_amplitude = 15 / 10, ob_frequency = 5 / 10\<rparr>"

definition sampleDraws :: RandomDraws where
  "sampleDraws = \<lparr>rnd_type = 1 / 2, rnd_x = 1 / 2, rnd_y = 1 / 2, rnd_offset = 0\<rparr>"

definition sampleFrame :: "Group \<Rightarrow> FrameInput" where
  "sampleFrame groupObj =
     \<lparr>fi_isPlaying = True, fi_score = 0, fi_now = 5000, fi_random = sampleDraws,
      fi_nemoRef = None, fi_groupRef = Some groupObj, fi_elapsedTime = 0, fi_delta = 1 / 60\<rparr>"

section \<open>Invariant of the obstacle collection\<close>

text \<open>
  What \<open>spawnObstacle\<close> and the frame update maintain: the obstacles of the collection
  have pairwise different ids, all below the counter, and all are active.
\<close>

definition obstaclesInvariant :: "ObstaclesState \<Rightarrow> bool" where
  "obstaclesInvariant st =
     (distinct (map ob_id (obstacles st))
      \<and> list_all (\<lambda>obstacle. ob_active obstacle \<and> ob_id obstacle < obstacleCounterRef st)
            (obstacles st))"

section \<open>The level index\<close>

lemma levelScan_bound: "0 < n \<Longrightarrow> levelScan levels s n < n"
  by (induction n) (auto simp: less_Suc_eq)

lemma levelScan_hit:
  "i < n \<Longrightarrow> lv_score (levels ! i) \<le> s \<Longrightarrow> (\<forall>k. i < k \<and> k < n \<longrightarrow> s < lv_score (levels ! k))
     \<Longrightarrow> levelScan levels s n = i"
proof (induction n)
  case 0
  then show ?case by simp
next
  case (Suc n)
  show ?case
  proof (cases "i = n")
    case True
    with Suc.prems show ?thesis by simp
  next
    case False
    with Suc.prems have "i < n" by simp
    moreover from Suc.prems \<open>i < n\<close> have "s < lv_score (levels ! n)" by simp
    moreover from Suc.prems have "\<forall>k. i < k \<and> k < n \<longrightarrow> s < lv_score (levels ! k)" by simp
    ultimately show ?thesis using Suc.IH Suc.prems(2) by simp
  qed
qed

lemma levelScan_match:
  "levelScan levels s n = j \<Longrightarrow> 0 < j \<Longrightarrow> lv_score (levels ! j) \<le> s"
  by (induction n) (auto split: if_splits)

lemma levelScan_above:
  "levelScan levels s n = j \<Longrightarrow> j < k \<Longrightarrow> k < n \<Longrightarrow> s < lv_score (levels ! k)"
  by (induction n) (auto split: if_splits simp: less_Suc_eq)

lemma index_bound: "levels \<noteq> [] \<Longrightarrow> getDifficultyLevelIndex levels s < length levels"
  by (simp add: getDifficultyLevelIndex_def levelScan_bound)

lemma index_interval:
  assumes "sorted_wrt (\<lambda>a b. lv_score a < lv_score b) levels" "i < length levels"
    "lv_score (levels ! i) \<le> s" "Suc i < length levels \<longrightarrow> s < lv_score (levels ! Suc i)"
  shows "getDifficultyLevelIndex levels s = i"
proof -
  have "\<forall>k. i < k \<and> k < length levels \<longrightarrow> s < lv_score (levels ! k)"
  proof (intro allI impI)
    fix k assume k: "i < k \<and> k < length levels"
    then have "Suc i < length levels" by simp
    with assms have a: "s < lv_score (levels ! Suc i)" by simp
    show "s < lv_score (levels ! k)"
    proof (cases "k = Suc i")
      case True with a show ?thesis by simp
    next
      case False
      with k have "Suc i < k" by simp
      with assms(1) k have "lv_score (levels ! Suc i) < lv_score (levels ! k)"
        by (simp add: sorted_wrt_iff_nth_less)
      with a show ?thesis by simp
    qed
  qed
  with assms show ?thesis
    unfolding getDifficultyLevelIndex_def by (intro levelScan_hit) auto
qed

section \<open>Game parameters\<close>

lemma nextMilestone_last:
  "getDifficultyLevelIndex levels s = i \<Longrightarrow> Suc i = length levels \<Longrightarrow> getNextMilestone levels s = None"
  by (simp add: getNextMilestone_def)

lemma nextMilestone_inner:
  "getDifficultyLevelIndex levels s = i \<Longrightarrow> Suc i < length levels
     \<Longrightarrow> getNextMilestone levels s = Some (lv_score (levels ! Suc i))"
  by (simp add: getNextMilestone_def)

lemma calc_raw:
  assumes "getDifficultyLevelIndex levels s = i" "i < length levels"
    "Suc i = length levels \<or> s = lv_score (levels ! i)"
  shows "calculateGameParameters levels s =
    Inr \<lparr>gp_speed = lv_speed (levels ! i), gp_spawnRate = lv_spawnRate (levels ! i),
         gp_scoreMultiplier = orDefault (lv_scoreMultiplier (levels ! i)) 1,
         gp_difficultyLevel = i,
         gp_nextMilestone = (if Suc i = length levels then None else Some (lv_score (levels ! Suc i)))\<rparr>"
proof (cases "Suc i = length levels")
  case True
  with assms show ?thesis
    by (simp add: calculateGameParameters_def nextMilestone_last Let_def)
next
  case False
  with assms have "Suc i < length levels" by simp
  with assms False show ?thesis
    by (simp add: calculateGameParameters_def nextMilestone_inner Let_def)
qed

lemma calc_interp:
  assumes "getDifficultyLevelIndex levels s = i" "Suc i < length levels"
    "s \<noteq> lv_score (levels ! i)" "lv_score (levels ! Suc i) \<noteq> lv_score (levels ! i)"
  shows "calculateGameParameters levels s =
    Inr \<lparr>gp_speed = lv_speed (levels ! i)
           + (s - lv_score (levels ! i)) / (lv_score (levels ! Suc i) - lv_score (levels ! i))
             * (lv_speed (levels ! Suc i) - lv_speed (levels ! i)),
         gp_spawnRate = lv_spawnRate (levels ! i)
           + (s - lv_score (levels ! i)) / (lv_score (levels ! Suc i) - lv_score (levels ! i))
             * (lv_spawnRate (levels ! Suc i) - lv_spawnRate (levels ! i)),
         gp_scoreMultiplier = orDefault (lv_scoreMultiplier (levels ! i)) 1
           + (s - lv_score (levels ! i)) / (lv_score (levels ! Suc i) - lv_score (levels ! i))
             * (orDefault (lv_scoreMultiplier (levels ! Suc i)) 1 - orDefault (lv_scoreMultiplier (levels ! i)) 1),
         gp_difficultyLevel = i,
         gp_nextMilestone = Some (lv_score (levels ! Suc i))\<rparr>"
  using assms
  by (simp add: calculateGameParameters_def nextMilestone_inner Let_def)

lemma calc_total:
  assumes "sorted_wrt (\<lambda>a b. lv_score a < lv_score b) levels" "levels \<noteq> []"
  shows "\<exists>p. calculateGameParameters levels s = Inr p"
proof -
  let ?i = "getDifficultyLevelIndex levels s"
  have lt: "?i < length levels" using assms(2) by (rule index_bound)
  show ?thesis
  proof (cases "Suc ?i = length levels \<or> s = lv_score (levels ! ?i)")
    case True
    from calc_raw[OF refl lt True] show ?thesis by blast
  next
    case False
    with lt have n: "Suc ?i < length levels" by simp
    with assms(1) have "lv_score (levels ! ?i) < lv_score (levels ! Suc ?i)"
      by (simp add: sorted_wrt_iff_nth_less)
    then have "lv_score (levels ! Suc ?i) \<noteq> lv_score (levels ! ?i)" by simp
    from calc_interp[OF refl n _ this] False show ?thesis by blast
  qed
qed

lemma calc_multiplier_one:
  assumes "calculateGameParameters levels s = Inr p"
    and "\<forall>l \<in> set levels. orDefault (lv_scoreMultiplier l) 1 = 1"
  shows "gp_scoreMultiplier p = 1"
proof -
  let ?i = "getDifficultyLevelIndex levels s"
  from assms(1) have lt: "?i < length levels"
    by (auto simp: calculateGameParameters_def Let_def split: if_splits)
  then have c: "orDefault (lv_scoreMultiplier (levels ! ?i)) 1 = 1" using assms(2) by simp
  show ?thesis
  proof (cases "getNextMilestone levels s = None \<or> s = lv_score (levels ! ?i)")
    case True
    with assms(1) lt c show ?thesis
      by (auto simp: calculateGameParameters_def Let_def split: if_splits)
  next
    case False
    then have "Suc ?i < length levels"
      by (auto simp: getNextMilestone_def Let_def split: if_splits)
    then have n: "orDefault (lv_scoreMultiplier (levels ! (?i + 1))) 1 = 1" using assms(2) by simp
    from assms(1) lt False c n show ?thesis
      by (auto simp: calculateGameParameters_def Let_def split: if_splits)
  qed
qed

lemma shipped_increasing: "sorted_wrt (\<lambda>a b. lv_score a < lv_score b) DIFFICULTY_LEVELS"
  by (simp add: DIFFICULTY_LEVELS_def)

lemma shipped_unspecified: "\<forall>l \<in> set DIFFICULTY_LEVELS. orDefault (lv_scoreMultiplier l) 1 = 1"
  by (simp add: DIFFICULTY_LEVELS_def orDefault_def)

lemma interp_mono:
  fixes a b c d s1 s2 :: real
  assumes "0 < d" "s1 \<le> s2"
  shows "a \<le> b \<Longrightarrow> a + (s1 - c) / d * (b - a) \<le> a + (s2 - c) / d * (b - a)"
    and "b \<le> a \<Longrightarrow> a + (s2 - c) / d * (b - a) \<le> a + (s1 - c) / d * (b - a)"
proof -
  from assms have q: "(s1 - c) / d \<le> (s2 - c) / d" by (simp add: divide_right_mono)
  show "a \<le> b \<Longrightarrow> a + (s1 - c) / d * (b - a) \<le> a + (s2 - c) / d * (b - a)"
    using q by (intro add_left_mono mult_right_mono) simp_all
  show "b \<le> a \<Longrightarrow> a + (s2 - c) / d * (b - a) \<le> a + (s1 - c) / d * (b - a)"
    using q by (intro add_left_mono mult_right_mono_neg) simp_all
qed

text \<open>
  From a threshold up to the next one the result is the interpolation formula; at the
  threshold itself the progress is zero and the formula gives the level's own values.
\<close>

lemma calc_between:
  assumes "sorted_wrt (\<lambda>a b. lv_score a < lv_score b) levels" "Suc i < length levels"
    "lv_score (levels ! i) \<le> s" "s < lv_score (levels ! Suc i)"
  shows "calculateGameParameters levels s =
    Inr \<lparr>gp_speed = lv_speed (levels ! i)
           + (s - lv_score (levels ! i)) / (lv_score (levels ! Suc i) - lv_score (levels ! i))
             * (lv_speed (levels ! Suc i) - lv_speed (levels ! i)),
         gp_spawnRate = lv_spawnRate (levels ! i)
           + (s - lv_score (levels ! i)) / (lv_score (levels ! Suc i) - lv_score (levels ! i))
             * (lv_spawnRate (levels ! Suc i) - lv_spawnRate (levels ! i)),
         gp_scoreMultiplier = orDefault (lv_scoreMultiplier (levels ! i)) 1
           + (s - lv_score (levels ! i)) / (lv_score (levels ! Suc i) - lv_score (levels ! i))
             * (orDefault (lv_scoreMultiplier (levels ! Suc i)) 1 - orDefault (lv_scoreMultiplier (levels ! i)) 1),
         gp_difficultyLevel = i,
         gp_nextMilestone = Some (lv_score (levels ! Suc i))\<rparr>"
proof -
  from assms have i: "i < length levels" by simp
  have idx: "getDifficultyLevelIndex levels s = i"
    using assms by (intro index_interval[OF assms(1) i]) auto
  from assms have ne: "lv_score (levels ! Suc i) \<noteq> lv_score (levels ! i)" by simp
  show ?thesis
  proof (cases "s = lv_score (levels ! i)")
    case True
    from calc_raw[OF idx i] True assms(2) show ?thesis by simp
  next
    case False
    from calc_interp[OF idx assms(2) False ne] show ?thesis .
  qed
qed

lemma orDefault_rawMultiplier:
  "lv_scoreMultiplier l \<noteq> Some 0 \<Longrightarrow> orDefault (lv_scoreMultiplier l) 1 = rawMultiplier l"
  by (simp add: orDefault_def rawMultiplier_def split: option.splits)

text \<open>
  At a threshold, and at or above the last one. Let the thresholds be strictly increasing.
  When the score equals the threshold of level \<open>i\<close>, or \<open>i\<close> is the last level and the
  score is at or above its threshold, \<open>calculateGameParameters\<close> returns the speed and
  spawn rate of level \<open>i\<close> unchanged and the level index \<open>i\<close>, the next milestone is null
  exactly when \<open>i\<close> is the last level, and the multiplier returned is what
  \<open>scoreMultiplier || 1.0\<close> evaluates to. That is the level's own multiplier, one when
  unspecified, for every level whose multiplier is not specified as zero.
\<close>

theorem calculateGameParameters_at_threshold:
  assumes "sorted_wrt (\<lambda>a b. lv_score a < lv_score b) levels" and "i < length levels"
    and "s = lv_score (levels ! i) \<or> (Suc i = length levels \<and> lv_score (levels ! i) \<le> s)"
  shows "calculateGameParameters levels s =
    Inr \<lparr>gp_speed = lv_speed (levels ! i),
         gp_spawnRate = lv_spawnRate (levels ! i),
         gp_scoreMultiplier =
           (case lv_scoreMultiplier (levels ! i) of None \<Rightarrow> 1 | Some m \<Rightarrow> if m = 0 then 1 else m),
         gp_difficultyLevel = i,
         gp_nextMilestone =
           (if Suc i = length levels then None else Some (lv_score (levels ! Suc i)))\<rparr>"
proof -
  have idx: "getDifficultyLevelIndex levels s = i"
  proof (rule index_interval[OF assms(1,2)])
    show "lv_score (levels ! i) \<le> s" using assms(3) by auto
    show "Suc i < length levels \<longrightarrow> s < lv_score (levels ! Suc i)"
    proof
      assume a: "Suc i < length levels"
      with assms(3) have "s = lv_score (levels ! i)" by auto
      moreover from assms(1) a have "lv_score (levels ! i) < lv_score (levels ! Suc i)"
        by (simp add: sorted_wrt_iff_nth_less)
      ultimately show "s < lv_score (levels ! Suc i)" by simp
    qed
  qed
  have "Suc i = length levels \<or> s = lv_score (levels ! i)" using assms(3) by auto
  from calc_raw[OF idx assms(2) this] show ?thesis
    by (simp add: orDefault_def)
qed

theorem calculateGameParameters_at_threshold_shipped:
  "sorted_wrt (\<lambda>a b. lv_score a < lv_score b) DIFFICULTY_LEVELS
   \<and> calculateGameParameters DIFFICULTY_LEVELS 100 =
       Inr \<lparr>gp_speed = 6, gp_spawnRate = 18 / 10, gp_scoreMultiplier = 1,
            gp_difficultyLevel = 1, gp_nextMilestone = Some 250\<rparr>
   \<and> calculateGameParameters DIFFICULTY_LEVELS 2500 =
       Inr \<lparr>gp_speed = 10, gp_spawnRate = 1, gp_scoreMultiplier = 1,
            gp_difficultyLevel = 5, gp_nextMilestone = None\<rparr>"
  using calculateGameParameters_at_threshold[of DIFFICULTY_LEVELS 1 100] calculateGameParameters_at_threshold[of DIFFICULTY_LEVELS 5 2500]
  by (simp add: DIFFICULTY_LEVELS_def)

lemma calculateGameParameters_at_threshold_raw:
  assumes "sorted_wrt (\<lambda>a b. lv_score a < lv_score b) levels" and "i < length levels"
    and "s = lv_score (levels ! i) \<or> (Suc i = length levels \<and> lv_score (levels ! i) \<le> s)"
    and "lv_scoreMultiplier (levels ! i) \<noteq> Some 0"
  shows "calculateGameParameters levels s =
    Inr \<lparr>gp_speed = lv_speed (levels ! i),
         gp_spawnRate = lv_spawnRate (levels ! i),
         gp_scoreMultiplier = rawMultiplier (levels ! i),
         gp_difficultyLevel = i,
         gp_nextMilestone =
           (if Suc i = length levels then None else Some (lv_score (levels ! Suc i)))\<rparr>"
proof -
  have "(case lv_scoreMultiplier (levels ! i) of None \<Rightarrow> 1 | Some m \<Rightarrow> if m = 0 then 1 else m)
      = rawMultiplier (levels ! i)"
    using assms(4) by (simp add: rawMultiplier_def split: option.splits)
  with calculateGameParameters_at_threshold[OF assms(1,2,3)] show ?thesis by simp
qed


text \<open>
  Between two thresholds. Let the thresholds be strictly increasing. For a score strictly
  between the thresholds of levels \<open>i\<close> and \<open>i + 1\<close>, speed, spawn rate and score
  multiplier are interpolated linearly between the two levels with
  \<open>progress = (s - currentThreshold) / (nextThreshold - currentThreshold)\<close>, the level
  index is \<open>i\<close> and the next milestone is the threshold of level \<open>i + 1\<close>; the two ends
  of the multiplier are what \<open>scoreMultiplier || 1.0\<close> evaluates to. With the two tiers
  \<open>{0, 5, 2.0, 1.0}\<close> and \<open>{100, 6, 1.8, 1.0}\<close> the score 50 gives speed 5.5, spawn rate
  1.9, multiplier 1.0, level 0 and next milestone 100.
\<close>

theorem calculateGameParameters_interpolates:
  "(sorted_wrt (\<lambda>a b. lv_score a < lv_score b) levels \<and> Suc i < length levels
      \<and> lv_score (levels ! i) < s \<and> s < lv_score (levels ! Suc i)
    \<longrightarrow> calculateGameParameters levels s =
        (let currentLevel = levels ! i;
             nextLevel = levels ! Suc i;
             progress = (s - lv_score currentLevel) / (lv_score nextLevel - lv_score currentLevel)
         in Inr \<lparr>gp_speed = lv_speed currentLevel + progress * (lv_speed nextLevel - lv_speed currentLevel),
                 gp_spawnRate = lv_spawnRate currentLevel
                   + progress * (lv_spawnRate nextLevel - lv_spawnRate currentLevel),
                 gp_scoreMultiplier = orDefault (lv_scoreMultiplier currentLevel) 1
                   + progress * (orDefault (lv_scoreMultiplier nextLevel) 1
                                  - orDefault (lv_scoreMultiplier currentLevel) 1),
                 gp_difficultyLevel = i,
                 gp_nextMilestone = Some (lv_score nextLevel)\<rparr>))
   \<and> calculateGameParameters
         [\<lparr>lv_score = 0, lv_speed = 5, lv_spawnRate = 2, lv_scoreMultiplier = Some 1\<rparr>,
          \<lparr>lv_score = 100, lv_speed = 6, lv_spawnRate = 18 / 10, lv_scoreMultiplier = Some 1\<rparr>] 50
       = Inr \<lparr>gp_speed = 55 / 10, gp_spawnRate = 19 / 10, gp_scoreMultiplier = 1,
              gp_difficultyLevel = 0, gp_nextMilestone = Some 100\<rparr>"
proof (intro conjI impI)
  assume a: "sorted_wrt (\<lambda>a b. lv_score a < lv_score b) levels \<and> Suc i < length levels
      \<and> lv_score (levels ! i) < s \<and> s < lv_score (levels ! Suc i)"
  then have "lv_score (levels ! i) \<le> s" by simp
  with a calc_between[of levels i s]
  show "calculateGameParameters levels s =
        (let currentLevel = levels ! i;
             nextLevel = levels ! Suc i;
             progress = (s - lv_score currentLevel) / (lv_score nextLevel - lv_score currentLevel)
         in Inr \<lparr>gp_speed = lv_speed currentLevel + progress * (lv_speed nextLevel - lv_speed currentLevel),
                 gp_spawnRate = lv_spawnRate currentLevel
                   + progress * (lv_spawnRate nextLevel - lv_spawnRate currentLevel),
                 gp_scoreMultiplier = orDefault (lv_scoreMultiplier currentLevel) 1
                   + progress * (orDefault (lv_scoreMultiplier nextLevel) 1
                                  - orDefault (lv_scoreMultiplier currentLevel) 1),
                 gp_difficultyLevel = i,
                 gp_nextMilestone = Some (lv_score nextLevel)\<rparr>)"
    by (simp add: Let_def)
next
  show "calculateGameParameters
         [\<lparr>lv_score = 0, lv_speed = 5, lv_spawnRate = 2, lv_scoreMultiplier = Some 1\<rparr>,
          \<lparr>lv_score = 100, lv_speed = 6, lv_spawnRate = 18 / 10, lv_scoreMultiplier = Some 1\<rparr>] 50
       = Inr \<lparr>gp_speed = 55 / 10, gp_spawnRate = 19 / 10, gp_scoreMultiplier = 1,
              gp_difficultyLevel = 0, gp_nextMilestone = Some 100\<rparr>"
    by (simp add: calculateGameParameters_def getDifficultyLevelIndex_def getNextMilestone_def
        orDefault_def)
qed

theorem calculateGameParameters_interpolates_shipped:
  "calculateGameParameters DIFFICULTY_LEVELS 175 =
     Inr \<lparr>gp_speed = 65 / 10, gp_spawnRate = 17 / 10, gp_scoreMultiplier = 1,
          gp_difficultyLevel = 1, gp_nextMilestone = Some 250\<rparr>"
  using calculateGameParameters_interpolates[of DIFFICULTY_LEVELS 1 175]
  by (simp add: DIFFICULTY_LEVELS_def orDefault_def)

lemma calculateGameParameters_interpolates_raw:
  assumes "sorted_wrt (\<lambda>a b. lv_score a < lv_score b) levels" and "Suc i < length levels"
    and "lv_score (levels ! i) < s" and "s < lv_score (levels ! Suc i)"
    and "lv_scoreMultiplier (levels ! i) \<noteq> Some 0"
    and "lv_scoreMultiplier (levels ! Suc i) \<noteq> Some 0"
  shows "calculateGameParameters levels s =
        (let currentLevel = levels ! i;
             nextLevel = levels ! Suc i;
             progress = (s - lv_score currentLevel) / (lv_score nextLevel - lv_score currentLevel)
         in Inr \<lparr>gp_speed = lv_speed currentLevel + progress * (lv_speed nextLevel - lv_speed currentLevel),
                 gp_spawnRate = lv_spawnRate currentLevel
                   + progress * (lv_spawnRate nextLevel - lv_spawnRate currentLevel),
                 gp_scoreMultiplier = rawMultiplier currentLevel
                   + progress * (rawMultiplier nextLevel - rawMultiplier currentLevel),
                 gp_difficultyLevel = i,
                 gp_nextMilestone = Some (lv_score nextLevel)\<rparr>)"
  using calculateGameParameters_interpolates[of levels i s] assms
  by (simp add: orDefault_rawMultiplier Let_def)


text \<open>
  Monotonicity. Let the thresholds be strictly increasing and let \<open>s1 \<le> s2\<close> both lie
  between the threshold of level \<open>i\<close> (included) and that of level \<open>i + 1\<close> (excluded).
  Then each of speed, spawn rate and score multiplier moves from its value at \<open>s1\<close> to its
  value at \<open>s2\<close> in the direction of the difference between the two levels: it does not
  decrease when the next level's value is at least the current level's, and does not
  increase when it is at most the current level's. For the multiplier the two levels'
  values are what \<open>scoreMultiplier || 1.0\<close> evaluates to.
\<close>

theorem calculateGameParameters_monotone:
  assumes "sorted_wrt (\<lambda>a b. lv_score a < lv_score b) levels" and "Suc i < length levels"
    and "lv_score (levels ! i) \<le> s1" and "s1 \<le> s2" and "s2 < lv_score (levels ! Suc i)"
  shows "\<exists>p1 p2. calculateGameParameters levels s1 = Inr p1
      \<and> calculateGameParameters levels s2 = Inr p2
      \<and> (lv_speed (levels ! i) \<le> lv_speed (levels ! Suc i) \<longrightarrow> gp_speed p1 \<le> gp_speed p2)
      \<and> (lv_speed (levels ! Suc i) \<le> lv_speed (levels ! i) \<longrightarrow> gp_speed p2 \<le> gp_speed p1)
      \<and> (lv_spawnRate (levels ! i) \<le> lv_spawnRate (levels ! Suc i)
            \<longrightarrow> gp_spawnRate p1 \<le> gp_spawnRate p2)
      \<and> (lv_spawnRate (levels ! Suc i) \<le> lv_spawnRate (levels ! i)
            \<longrightarrow> gp_spawnRate p2 \<le> gp_spawnRate p1)
      \<and> (orDefault (lv_scoreMultiplier (levels ! i)) 1 \<le> orDefault (lv_scoreMultiplier (levels ! Suc i)) 1
            \<longrightarrow> gp_scoreMultiplier p1 \<le> gp_scoreMultiplier p2)
      \<and> (orDefault (lv_scoreMultiplier (levels ! Suc i)) 1 \<le> orDefault (lv_scoreMultiplier (levels ! i)) 1
            \<longrightarrow> gp_scoreMultiplier p2 \<le> gp_scoreMultiplier p1)"
proof -
  have d: "0 < lv_score (levels ! Suc i) - lv_score (levels ! i)" using assms by simp
  have b1: "s1 < lv_score (levels ! Suc i)" and b2: "lv_score (levels ! i) \<le> s2"
    using assms by simp_all
  note e1 = calc_between[OF assms(1,2,3) b1]
  note e2 = calc_between[OF assms(1,2) b2 assms(5)]
  show ?thesis
    unfolding e1 e2 using interp_mono[OF d assms(4)] by simp
qed

theorem calculateGameParameters_monotone_shipped:
  "\<exists>p1 p2. calculateGameParameters DIFFICULTY_LEVELS 100 = Inr p1
     \<and> calculateGameParameters DIFFICULTY_LEVELS 200 = Inr p2
     \<and> gp_speed p1 \<le> gp_speed p2 \<and> gp_spawnRate p2 \<le> gp_spawnRate p1
     \<and> gp_scoreMultiplier p1 \<le> gp_scoreMultiplier p2
     \<and> gp_scoreMultiplier p2 \<le> gp_scoreMultiplier p1"
  using calculateGameParameters_monotone[of DIFFICULTY_LEVELS 1 100 200]
  by (simp add: DIFFICULTY_LEVELS_def orDefault_def)

lemma calculateGameParameters_monotone_raw:
  assumes "sorted_wrt (\<lambda>a b. lv_score a < lv_score b) levels" and "Suc i < length levels"
    and "lv_score (levels ! i) \<le> s1" and "s1 \<le> s2" and "s2 < lv_score (levels ! Suc i)"
    and "lv_scoreMultiplier (levels ! i) \<noteq> Some 0"
    and "lv_scoreMultiplier (levels ! Suc i) \<noteq> Some 0"
  shows "\<exists>p1 p2. calculateGameParameters levels s1 = Inr p1
      \<and> calculateGameParameters levels s2 = Inr p2
      \<and> (rawMultiplier (levels ! i) \<le> rawMultiplier (levels ! Suc i)
            \<longrightarrow> gp_scoreMultiplier p1 \<le> gp_scoreMultiplier p2)
      \<and> (rawMultiplier (levels ! Suc i) \<le> rawMultiplier (levels ! i)
            \<longrightarrow> gp_scoreMultiplier p2 \<le> gp_scoreMultiplier p1)"
  using calculateGameParameters_monotone[OF assms(1,2,3,4,5)]
  by (simp only: orDefault_rawMultiplier[OF assms(6)] orDefault_rawMultiplier[OF assms(7)]) blast


text \<open>
  Claim C10. With the shipped table \<open>DIFFICULTY_LEVELS\<close>, \<open>calculateGameParameters\<close>
  returns a score multiplier of exactly one for every score, and \<open>setScoreWithMultiplier\<close>
  with these parameters adds the rounded base increment itself to the score.
\<close>

theorem shipped_scoreMultiplier_one:
  "\<exists>p. calculateGameParameters DIFFICULTY_LEVELS s = Inr p \<and> gp_scoreMultiplier p = 1
      \<and> setScoreWithMultiplier isPlaying p baseScoreIncrease current
          = (if isPlaying then current + Math_round baseScoreIncrease else current)"
proof -
  have "DIFFICULTY_LEVELS \<noteq> []" by (simp add: DIFFICULTY_LEVELS_def)
  from calc_total[OF shipped_increasing this]
  obtain p where p: "calculateGameParameters DIFFICULTY_LEVELS s = Inr p" by blast
  from calc_multiplier_one[OF p shipped_unspecified] have "gp_scoreMultiplier p = 1" .
  with p show ?thesis by (simp add: setScoreWithMultiplier_def)
qed

theorem shipped_scoreMultiplier_one_witness:
  "\<exists>p. calculateGameParameters DIFFICULTY_LEVELS 175 = Inr p \<and> gp_scoreMultiplier p = 1
     \<and> setScoreWithMultiplier True p 1 175 = 176"
  using shipped_scoreMultiplier_one[of 175 True 1 175]
  by (simp add: Math_round_def)

section \<open>Difficulty notifications\<close>

lemma index_match:
  "0 < getDifficultyLevelIndex levels s \<Longrightarrow> lv_score (levels ! getDifficultyLevelIndex levels s) \<le> s"
  unfolding getDifficultyLevelIndex_def by (rule levelScan_match[OF refl])

lemma index_above:
  "getDifficultyLevelIndex levels s < k \<Longrightarrow> k < length levels \<Longrightarrow> s < lv_score (levels ! k)"
  unfolding getDifficultyLevelIndex_def by (rule levelScan_above[OF refl])

lemma isNew_iff_crossing:
  assumes inc: "sorted_wrt (\<lambda>a b. lv_score a < lv_score b) levels" and ne: "levels \<noteq> []"
    and base: "lv_score (levels ! 0) \<le> p"
  shows "isNewDifficultyLevel levels p c \<longleftrightarrow> list_ex (\<lambda>l. p < lv_score l \<and> lv_score l \<le> c) levels"
proof
  let ?ip = "getDifficultyLevelIndex levels p" and ?ic = "getDifficultyLevelIndex levels c"
  have ic: "?ic < length levels" using ne by (rule index_bound)
  assume "isNewDifficultyLevel levels p c"
  then have gt: "?ip < ?ic" by (simp add: isNewDifficultyLevel_def)
  then have "0 < ?ic" by simp
  then have 1: "lv_score (levels ! ?ic) \<le> c" by (rule index_match)
  have 2: "p < lv_score (levels ! ?ic)" using gt ic by (rule index_above)
  have 3: "levels ! ?ic \<in> set levels" using ic by simp
  show "list_ex (\<lambda>l. p < lv_score l \<and> lv_score l \<le> c) levels"
    unfolding list_ex_iff using 1 2 3 by blast
next
  let ?ip = "getDifficultyLevelIndex levels p" and ?ic = "getDifficultyLevelIndex levels c"
  have ip: "?ip < length levels" using ne by (rule index_bound)
  assume "list_ex (\<lambda>l. p < lv_score l \<and> lv_score l \<le> c) levels"
  then obtain l where l: "l \<in> set levels" "p < lv_score l" "lv_score l \<le> c"
    unfolding list_ex_iff by blast
  from l(1) obtain k where kl: "k < length levels" "levels ! k = l"
    unfolding in_set_conv_nth by blast
  have k: "p < lv_score (levels ! k)" "lv_score (levels ! k) \<le> c" using l kl by simp_all
  have "?ip < k"
  proof (rule ccontr)
    assume "\<not> ?ip < k"
    then have le: "k \<le> ?ip" by simp
    have a: "lv_score (levels ! ?ip) \<le> p"
    proof (cases "?ip = 0")
      case True with base show ?thesis by simp
    next
      case False
      then have "0 < ?ip" by simp
      then show ?thesis by (rule index_match)
    qed
    have b: "lv_score (levels ! k) \<le> lv_score (levels ! ?ip)"
    proof (cases "k = ?ip")
      case True then show ?thesis by simp
    next
      case False
      with le have "k < ?ip" by simp
      with inc ip have "lv_score (levels ! k) < lv_score (levels ! ?ip)"
        unfolding sorted_wrt_iff_nth_less by blast
      then show ?thesis by simp
    qed
    from a b k(1) show False by simp
  qed
  moreover have "k \<le> ?ic"
  proof (rule ccontr)
    assume "\<not> k \<le> ?ic"
    then have "?ic < k" by simp
    then have "c < lv_score (levels ! k)" using kl(1) by (rule index_above)
    with k(2) show False by simp
  qed
  ultimately show "isNewDifficultyLevel levels p c" by (simp add: isNewDifficultyLevel_def)
qed

lemma updateDifficulty_step:
  assumes "calculateGameParameters levels s = Inr p"
  shows "updateDifficulty levels s st =
     Inr (if isNewDifficultyLevel levels (previousScoreRef st) s
          then st\<lparr>gameParameters := p,
                  difficultyName := getDifficultyName (gp_difficultyLevel p),
                  showDifficultyNotification := True,
                  dismissTimers := dismissTimers st + 1,
                  previousScoreRef := s\<rparr>
          else st\<lparr>gameParameters := p, previousScoreRef := s\<rparr>)"
  using assms by (simp add: updateDifficulty_def Let_def)

lemma scoreUpdates_count:
  assumes inc: "sorted_wrt (\<lambda>a b. lv_score a < lv_score b) levels" and ne: "levels \<noteq> []"
  shows "lv_score (levels ! 0) \<le> previousScoreRef st \<Longrightarrow> \<forall>s \<in> set ss. lv_score (levels ! 0) \<le> s
    \<Longrightarrow> \<exists>st'. scoreUpdates levels ss st = Inr st'
          \<and> dismissTimers st' = dismissTimers st + crossingCount levels (previousScoreRef st) ss"
proof (induction ss arbitrary: st)
  case Nil
  then show ?case by simp
next
  case (Cons s ss)
  from calc_total[OF inc ne] obtain p where p: "calculateGameParameters levels s = Inr p" by blast
  let ?st1 = "if isNewDifficultyLevel levels (previousScoreRef st) s
          then st\<lparr>gameParameters := p,
                  difficultyName := getDifficultyName (gp_difficultyLevel p),
                  showDifficultyNotification := True,
                  dismissTimers := dismissTimers st + 1,
                  previousScoreRef := s\<rparr>
          else st\<lparr>gameParameters := p, previousScoreRef := s\<rparr>"
  have step: "updateDifficulty levels s st = Inr ?st1" by (rule updateDifficulty_step[OF p])
  have prev: "previousScoreRef ?st1 = s" by simp
  have timers: "dismissTimers ?st1 = dismissTimers st
      + (if list_ex (\<lambda>l. previousScoreRef st < lv_score l \<and> lv_score l \<le> s) levels then 1 else 0)"
    using isNew_iff_crossing[OF inc ne Cons.prems(1), of s] by simp
  from Cons.prems have "lv_score (levels ! 0) \<le> previousScoreRef ?st1" "\<forall>x \<in> set ss. lv_score (levels ! 0) \<le> x"
    by simp_all
  from Cons.IH[OF this] obtain st' where st': "scoreUpdates levels ss ?st1 = Inr st'"
    "dismissTimers st' = dismissTimers ?st1 + crossingCount levels (previousScoreRef ?st1) ss" by blast
  have "scoreUpdates levels (s # ss) st = Inr st'" using step st'(1) by simp
  moreover have "dismissTimers st' = dismissTimers st + crossingCount levels (previousScoreRef st) (s # ss)"
    using st'(2) timers prev by simp
  ultimately show ?case by blast
qed

lemma shipped_index_300: "getDifficultyLevelIndex DIFFICULTY_LEVELS 300 = 2"
  by (simp add: getDifficultyLevelIndex_def DIFFICULTY_LEVELS_def)

lemma shipped_index_90: "getDifficultyLevelIndex DIFFICULTY_LEVELS 90 = 0"
  by (simp add: getDifficultyLevelIndex_def DIFFICULTY_LEVELS_def)

lemma updateDifficulty_jump:
  assumes "previousScoreRef st = 90"
  shows "updateDifficulty DIFFICULTY_LEVELS 300 st =
    Inr (st\<lparr>gameParameters :=
               \<lparr>gp_speed = 72 / 10, gp_spawnRate = 156 / 100, gp_scoreMultiplier = 1,
                gp_difficultyLevel = 2, gp_nextMilestone = Some 500\<rparr>,
            difficultyName := ''Challenging'',
            showDifficultyNotification := True,
            dismissTimers := dismissTimers st + 1,
            previousScoreRef := 300\<rparr>)"
proof -
  have p: "calculateGameParameters DIFFICULTY_LEVELS 300 =
      Inr \<lparr>gp_speed = 72 / 10, gp_spawnRate = 156 / 100, gp_scoreMultiplier = 1,
           gp_difficultyLevel = 2, gp_nextMilestone = Some 500\<rparr>"
    by (simp add: calculateGameParameters_def shipped_index_300 getNextMilestone_def Let_def)
       (simp add: DIFFICULTY_LEVELS_def orDefault_def)
  have n: "isNewDifficultyLevel DIFFICULTY_LEVELS 90 300"
    by (simp add: isNewDifficultyLevel_def shipped_index_300 shipped_index_90)
  show ?thesis unfolding updateDifficulty_step[OF p] using assms n
    by (simp add: getDifficultyName_def difficultyNames_def)
qed

text \<open>
  Claim C5. \<open>isNewDifficultyLevel previousScore currentScore\<close> holds exactly when the
  level index of the current score is greater than that of the previous score, and so it
  is false for two scores of the same level. With strictly increasing thresholds and
  scores at or above the first threshold it holds exactly when the update crosses a
  threshold, whatever the size of the step. Over a sequence of score updates
  \<open>updateDifficulty\<close> raises one notification for each update that crosses a threshold and
  none for the others. On the shipped table the single update from 90 to 300 raises one
  notification, named after level 2, the level reached.
\<close>

theorem isNewDifficultyLevel_once_per_crossing:
  assumes "sorted_wrt (\<lambda>a b. lv_score a < lv_score b) levels" and "levels \<noteq> []"
    and "lv_score (levels ! 0) \<le> previousScore"
    and "lv_score (levels ! 0) \<le> previousScoreRef st"
    and "\<forall>s \<in> set ss. lv_score (levels ! 0) \<le> s"
    and "previousScoreRef st90 = 90"
  shows "(isNewDifficultyLevel levels previousScore currentScore
          \<longleftrightarrow> getDifficultyLevelIndex levels currentScore > getDifficultyLevelIndex levels previousScore)
    \<and> (getDifficultyLevelIndex levels currentScore = getDifficultyLevelIndex levels previousScore
          \<longrightarrow> \<not> isNewDifficultyLevel levels previousScore currentScore)
    \<and> (isNewDifficultyLevel levels previousScore currentScore
          \<longleftrightarrow> list_ex (\<lambda>l. previousScore < lv_score l \<and> lv_score l \<le> currentScore) levels)
    \<and> (\<exists>st'. scoreUpdates levels ss st = Inr st'
          \<and> dismissTimers st' = dismissTimers st + crossingCount levels (previousScoreRef st) ss)
    \<and> updateDifficulty DIFFICULTY_LEVELS 300 st90 =
         Inr (st90\<lparr>gameParameters :=
                     \<lparr>gp_speed = 72 / 10, gp_spawnRate = 156 / 100, gp_scoreMultiplier = 1,
                      gp_difficultyLevel = 2, gp_nextMilestone = Some 500\<rparr>,
                   difficultyName := ''Challenging'',
                   showDifficultyNotification := True,
                   dismissTimers := dismissTimers st90 + 1,
                   previousScoreRef := 300\<rparr>)"
proof (intro conjI)
  show "isNewDifficultyLevel levels previousScore currentScore
          \<longleftrightarrow> getDifficultyLevelIndex levels currentScore > getDifficultyLevelIndex levels previousScore"
    by (simp add: isNewDifficultyLevel_def)
  show "getDifficultyLevelIndex levels currentScore = getDifficultyLevelIndex levels previousScore
          \<longrightarrow> \<not> isNewDifficultyLevel levels previousScore currentScore"
    by (simp add: isNewDifficultyLevel_def)
  show "isNewDifficultyLevel levels previousScore currentScore
          \<longleftrightarrow> list_ex (\<lambda>l. previousScore < lv_score l \<and> lv_score l \<le> currentScore) levels"
    using assms(1,2,3) by (rule isNew_iff_crossing)
  show "\<exists>st'. scoreUpdates levels ss st = Inr st'
          \<and> dismissTimers st' = dismissTimers st + crossingCount levels (previousScoreRef st) ss"
    using assms(1,2,4,5) by (rule scoreUpdates_count)
  show "updateDifficulty DIFFICULTY_LEVELS 300 st90 =
         Inr (st90\<lparr>gameParameters :=
                     \<lparr>gp_speed = 72 / 10, gp_spawnRate = 156 / 100, gp_scoreMultiplier = 1,
                      gp_difficultyLevel = 2, gp_nextMilestone = Some 500\<rparr>,
                   difficultyName := ''Challenging'',
                   showDifficultyNotification := True,
                   dismissTimers := dismissTimers st90 + 1,
                   previousScoreRef := 300\<rparr>)"
    using assms(6) by (rule updateDifficulty_jump)
qed

theorem isNewDifficultyLevel_once_per_crossing_witness:
  "isNewDifficultyLevel DIFFICULTY_LEVELS 90 300
   \<and> \<not> isNewDifficultyLevel DIFFICULTY_LEVELS 300 310
   \<and> (\<exists>st'. scoreUpdates DIFFICULTY_LEVELS [95, 300, 301, 310]
                 (initialDifficultyState\<lparr>previousScoreRef := 90\<rparr>) = Inr st'
            \<and> dismissTimers st' = 1)"
proof -
  let ?st = "initialDifficultyState\<lparr>previousScoreRef := 90\<rparr>"
  have ne: "DIFFICULTY_LEVELS \<noteq> []" by (simp add: DIFFICULTY_LEVELS_def)
  have z: "lv_score (DIFFICULTY_LEVELS ! 0) = 0" by (simp add: DIFFICULTY_LEVELS_def)
  have b: "lv_score (DIFFICULTY_LEVELS ! 0) \<le> previousScoreRef ?st" by (simp add: z)
  have ss: "\<forall>s \<in> set [95, 300, 301, 310]. lv_score (DIFFICULTY_LEVELS ! 0) \<le> s" by (simp add: z)
  have p: "previousScoreRef ?st = 90" by simp
  have b90: "lv_score (DIFFICULTY_LEVELS ! 0) \<le> 90" and b300: "lv_score (DIFFICULTY_LEVELS ! 0) \<le> 300"
    by (simp_all add: z)
  note t1 = isNewDifficultyLevel_once_per_crossing[OF shipped_increasing ne b90 b ss p, of 300]
  note t2 = isNewDifficultyLevel_once_per_crossing[OF shipped_increasing ne b300 b ss p, of 310]
  have c1: "list_ex (\<lambda>l. 90 < lv_score l \<and> lv_score l \<le> 300) DIFFICULTY_LEVELS"
    by (simp add: DIFFICULTY_LEVELS_def)
  have c2: "\<not> list_ex (\<lambda>l. 300 < lv_score l \<and> lv_score l \<le> 310) DIFFICULTY_LEVELS"
    by (simp add: DIFFICULTY_LEVELS_def)
  have c3: "crossingCount DIFFICULTY_LEVELS 90 [95, 300, 301, 310] = 1"
    by (simp add: DIFFICULTY_LEVELS_def)
  from t1 c1 have "isNewDifficultyLevel DIFFICULTY_LEVELS 90 300" by blast
  moreover from t2 c2 have "\<not> isNewDifficultyLevel DIFFICULTY_LEVELS 300 310" by blast
  moreover from t1 obtain st' where "scoreUpdates DIFFICULTY_LEVELS [95, 300, 301, 310] ?st = Inr st'"
    "dismissTimers st' = dismissTimers ?st + crossingCount DIFFICULTY_LEVELS (previousScoreRef ?st) [95, 300, 301, 310]"
    by blast
  then have "\<exists>st'. scoreUpdates DIFFICULTY_LEVELS [95, 300, 301, 310] ?st = Inr st' \<and> dismissTimers st' = 1"
    using c3 by (simp add: initialDifficultyState_def)
  ultimately show ?thesis by blast
qed

section \<open>Collision detection\<close>

lemma distanceTo_euclidean: "distanceTo a b = euclidean a b"
  by (simp add: distanceTo_def euclidean_def power2_eq_square Let_def)

lemma collisionCallback_overlaps:
  "collisionCallback np r g obstacle st =
     (if ob_active obstacle \<and> overlaps np r g obstacle
      then st\<lparr>hasCollidedRef := True, onCollisionCalls := onCollisionCalls st + 1\<rparr>
      else st)"
  by (simp add: collisionCallback_def overlaps_def distanceTo_euclidean Let_def split: option.splits)

lemma fold_collisionCallback:
  "fold (collisionCallback np r g) obs st =
     (if filter (\<lambda>obstacle. ob_active obstacle \<and> overlaps np r g obstacle) obs = [] then st
      else st\<lparr>hasCollidedRef := True,
              onCollisionCalls := onCollisionCalls st
                + length (filter (\<lambda>obstacle. ob_active obstacle \<and> overlaps np r g obstacle) obs)\<rparr>)"
proof (induction obs arbitrary: st)
  case Nil
  then show ?case by simp
next
  case (Cons a obs)
  show ?case
  proof (cases "ob_active a \<and> overlaps np r g a")
    case True
    then have "collisionCallback np r g a st
        = st\<lparr>hasCollidedRef := True, onCollisionCalls := onCollisionCalls st + 1\<rparr>"
      by (simp add: collisionCallback_overlaps)
    with True show ?thesis by (simp add: Cons.IH)
  next
    case False
    then have "collisionCallback np r g a st = st"
      unfolding collisionCallback_overlaps by (rule if_not_P)
    moreover have "filter (\<lambda>obstacle. ob_active obstacle \<and> overlaps np r g obstacle) (a # obs)
        = filter (\<lambda>obstacle. ob_active obstacle \<and> overlaps np r g obstacle) obs"
      using False by auto
    ultimately show ?thesis by (simp only: fold_Cons comp_apply Cons.IH)
  qed
qed

lemma nemoRadius_eq: "5 / 10 * sz * COLLISION_THRESHOLD = playerRadius sz"
  by (simp add: COLLISION_THRESHOLD_def playerRadius_def)

lemma checkCollisions_count:
  assumes "\<not> hasCollidedRef st"
  shows "checkCollisions True (Some nemo) (Some g) rendered st =
     (if filter (\<lambda>obstacle. ob_active obstacle
            \<and> overlaps (nemo_position nemo) (playerRadius (nemo_scale_x nemo)) g obstacle) rendered = []
      then st
      else st\<lparr>hasCollidedRef := True,
              onCollisionCalls := onCollisionCalls st
                + length (filter (\<lambda>obstacle. ob_active obstacle
                    \<and> overlaps (nemo_position nemo) (playerRadius (nemo_scale_x nemo)) g obstacle) rendered)\<rparr>)"
  unfolding checkCollisions_def Let_def nemoRadius_eq fold_collisionCallback
  using assms by simp

lemma checkCollisions_tripped:
  "hasCollidedRef st \<Longrightarrow> checkCollisions isPlaying nemoRef groupRef rendered st = st"
  by (simp add: checkCollisions_def split: option.splits)

lemma rock_overlaps:
  "overlaps \<lparr>vx = 0, vy = 0, vz = 0\<rparr> (playerRadius 1) (map_of [(n, \<lparr>vx = 0, vy = 0, vz = 12 / 10\<rparr>)]) (rockObstacle n)"
proof -
  have "sqrt ((0 - 12 / 10)\<^sup>2) = (12 / 10 :: real)" by simp
  then show ?thesis
    by (simp add: overlaps_def rockObstacle_def euclidean_def playerRadius_def)
qed


lemma rock_touching:
  "\<not> overlaps \<lparr>vx = 0, vy = 0, vz = 0\<rparr> (playerRadius 1) (map_of [(n, \<lparr>vx = 0, vy = 0, vz = 15 / 10\<rparr>)]) (rockObstacle n)"
proof -
  have "sqrt ((0 - 15 / 10)\<^sup>2) = (15 / 10 :: real)" by simp
  then show ?thesis
    by (simp add: overlaps_def rockObstacle_def euclidean_def playerRadius_def)
qed

lemma rock_overlaps_two:
  "overlaps \<lparr>vx = 0, vy = 0, vz = 0\<rparr> (playerRadius 1)
     (map_of [(0, \<lparr>vx = 0, vy = 0, vz = 12 / 10\<rparr>), (1, \<lparr>vx = 0, vy = 0, vz = 12 / 10\<rparr>)]) (rockObstacle n)
   \<longleftrightarrow> n = 0 \<or> n = 1"
proof -
  have "sqrt ((0 - 12 / 10)\<^sup>2) = (12 / 10 :: real)" by simp
  then show ?thesis
    by (simp add: overlaps_def rockObstacle_def euclidean_def playerRadius_def)
qed

lemma resetCollisionState_playing: "\<not> hasCollidedRef (resetCollisionState True st)"
  by (simp add: resetCollisionState_def)

text \<open>
  Claim C2. While playing, with the guard not tripped and both refs set,
  \<open>checkCollisions\<close> reports a collision (it sets the guard and invokes \<open>onCollision\<close>)
  exactly when some active obstacle of the rendered list has a mesh whose Euclidean
  distance to the player is strictly less than \<open>0.5 * playerSizeScale * 0.8\<close> plus the
  collision radius of the obstacle's kind. A player at the origin with size 1 has radius
  0.4; a rock at \<open>(0, 0, 1.2)\<close> is at distance 1.2, less than \<open>0.4 + 1.1\<close>, and the
  collision is reported.
\<close>

theorem checkCollisions_distance_test:
  assumes "\<not> hasCollidedRef st"
  shows "(hasCollidedRef (checkCollisions True (Some nemo) (Some groupObj) rendered st)
           \<longleftrightarrow> (\<exists>obstacle \<in> set rendered. ob_active obstacle
                 \<and> overlaps (nemo_position nemo) (playerRadius (nemo_scale_x nemo)) groupObj obstacle))
    \<and> (onCollisionCalls st < onCollisionCalls (checkCollisions True (Some nemo) (Some groupObj) rendered st)
           \<longleftrightarrow> (\<exists>obstacle \<in> set rendered. ob_active obstacle
                 \<and> overlaps (nemo_position nemo) (playerRadius (nemo_scale_x nemo)) groupObj obstacle))
    \<and> playerRadius 1 = 4 / 10
    \<and> euclidean \<lparr>vx = 0, vy = 0, vz = 0\<rparr> \<lparr>vx = 0, vy = 0, vz = 12 / 10\<rparr> = 12 / 10
    \<and> checkCollisions True (Some \<lparr>nemo_position = \<lparr>vx = 0, vy = 0, vz = 0\<rparr>, nemo_scale_x = 1\<rparr>)
          (Some (map_of [(0, \<lparr>vx = 0, vy = 0, vz = 12 / 10\<rparr>)])) [rockObstacle 0]
          (initialObstaclesState\<lparr>obstacles := [rockObstacle 0]\<rparr>)
        = initialObstaclesState\<lparr>obstacles := [rockObstacle 0], hasCollidedRef := True,
            onCollisionCalls := 1\<rparr>"
proof -
  let ?P = "\<lambda>obstacle. ob_active obstacle
                 \<and> overlaps (nemo_position nemo) (playerRadius (nemo_scale_x nemo)) groupObj obstacle"
  have ex: "(\<exists>obstacle \<in> set rendered. ?P obstacle) \<longleftrightarrow> filter ?P rendered \<noteq> []"
    by (simp add: filter_empty_conv)
  have len: "filter ?P rendered \<noteq> [] \<Longrightarrow> 0 < length (filter ?P rendered)" by simp
  have 1: "hasCollidedRef (checkCollisions True (Some nemo) (Some groupObj) rendered st)
           \<longleftrightarrow> (\<exists>obstacle \<in> set rendered. ?P obstacle)"
    unfolding checkCollisions_count[OF assms] ex using assms by simp
  have 2: "onCollisionCalls st < onCollisionCalls (checkCollisions True (Some nemo) (Some groupObj) rendered st)
           \<longleftrightarrow> (\<exists>obstacle \<in> set rendered. ?P obstacle)"
    unfolding checkCollisions_count[OF assms] ex using len by simp
  have 3: "playerRadius 1 = 4 / 10" by (simp add: playerRadius_def)
  have "sqrt ((0 - 12 / 10)\<^sup>2) = (12 / 10 :: real)" by simp
  then have 4: "euclidean \<lparr>vx = 0, vy = 0, vz = 0\<rparr> \<lparr>vx = 0, vy = 0, vz = 12 / 10\<rparr> = 12 / 10"
    by (simp add: euclidean_def)
  have a: "ob_active (rockObstacle 0)" by (simp add: rockObstacle_def)
  have n: "\<not> hasCollidedRef (initialObstaclesState\<lparr>obstacles := [rockObstacle 0]\<rparr>)"
    by (simp add: initialObstaclesState_def)
  have 5: "checkCollisions True (Some \<lparr>nemo_position = \<lparr>vx = 0, vy = 0, vz = 0\<rparr>, nemo_scale_x = 1\<rparr>)
          (Some (map_of [(0, \<lparr>vx = 0, vy = 0, vz = 12 / 10\<rparr>)])) [rockObstacle 0]
          (initialObstaclesState\<lparr>obstacles := [rockObstacle 0]\<rparr>)
        = initialObstaclesState\<lparr>obstacles := [rockObstacle 0], hasCollidedRef := True,
            onCollisionCalls := 1\<rparr>"
    unfolding checkCollisions_count[OF n] using rock_overlaps[of 0] a
    by (simp add: initialObstaclesState_def)
  from 1 2 3 4 5 show ?thesis by blast
qed

theorem checkCollisions_distance_test_witness:
  "\<not> hasCollidedRef (checkCollisions True
        (Some \<lparr>nemo_position = \<lparr>vx = 0, vy = 0, vz = 0\<rparr>, nemo_scale_x = 1\<rparr>)
        (Some (map_of [(0, \<lparr>vx = 0, vy = 0, vz = 15 / 10\<rparr>)])) [rockObstacle 0]
        (initialObstaclesState\<lparr>obstacles := [rockObstacle 0]\<rparr>))
   \<and> hasCollidedRef (checkCollisions True
        (Some \<lparr>nemo_position = \<lparr>vx = 0, vy = 0, vz = 0\<rparr>, nemo_scale_x = 1\<rparr>)
        (Some (map_of [(0, \<lparr>vx = 0, vy = 0, vz = 12 / 10\<rparr>)])) [rockObstacle 0]
        (initialObstaclesState\<lparr>obstacles := [rockObstacle 0]\<rparr>))"
proof -
  have n: "\<not> hasCollidedRef (initialObstaclesState\<lparr>obstacles := [rockObstacle 0]\<rparr>)"
    by (simp add: initialObstaclesState_def)
  have a: "ob_active (rockObstacle 0)" by (simp add: rockObstacle_def)
  note t = checkCollisions_distance_test[OF n,
      of "\<lparr>nemo_position = \<lparr>vx = 0, vy = 0, vz = 0\<rparr>, nemo_scale_x = 1\<rparr>" _ "[rockObstacle 0]"]
  from t[of "map_of [(0, \<lparr>vx = 0, vy = 0, vz = 15 / 10\<rparr>)]"] rock_touching[of 0]
  have "\<not> hasCollidedRef (checkCollisions True
        (Some \<lparr>nemo_position = \<lparr>vx = 0, vy = 0, vz = 0\<rparr>, nemo_scale_x = 1\<rparr>)
        (Some (map_of [(0, \<lparr>vx = 0, vy = 0, vz = 15 / 10\<rparr>)])) [rockObstacle 0]
        (initialObstaclesState\<lparr>obstacles := [rockObstacle 0]\<rparr>))"
    by simp
  moreover from t[of "map_of [(0, \<lparr>vx = 0, vy = 0, vz = 12 / 10\<rparr>)]"] rock_overlaps[of 0] a
  have "hasCollidedRef (checkCollisions True
        (Some \<lparr>nemo_position = \<lparr>vx = 0, vy = 0, vz = 0\<rparr>, nemo_scale_x = 1\<rparr>)
        (Some (map_of [(0, \<lparr>vx = 0, vy = 0, vz = 12 / 10\<rparr>)])) [rockObstacle 0]
        (initialObstaclesState\<lparr>obstacles := [rockObstacle 0]\<rparr>))"
    by simp
  ultimately show ?thesis by blast
qed

text \<open>
  Claim C1 says that the collision event is emitted at most once per session and that
  \<open>checkCollisions\<close> stops at the first obstacle that triggers. The \<open>forEach\<close> loop does
  not stop: with two rocks in reach of the player in the same invocation, \<open>onCollision\<close>
  is invoked twice. (The other two parts of the claim hold: \<open>checkCollisions_tripped\<close>
  and \<open>resetCollisionState_playing\<close>.)
\<close>

theorem checkCollisions_reports_twice:
  "checkCollisions True (Some \<lparr>nemo_position = \<lparr>vx = 0, vy = 0, vz = 0\<rparr>, nemo_scale_x = 1\<rparr>)
     (Some (map_of [(0, \<lparr>vx = 0, vy = 0, vz = 12 / 10\<rparr>), (1, \<lparr>vx = 0, vy = 0, vz = 12 / 10\<rparr>)]))
     [rockObstacle 0, rockObstacle 1]
     (initialObstaclesState\<lparr>obstacles := [rockObstacle 0, rockObstacle 1]\<rparr>)
   = initialObstaclesState\<lparr>obstacles := [rockObstacle 0, rockObstacle 1],
       hasCollidedRef := True, onCollisionCalls := 2\<rparr>"
proof -
  have n: "\<not> hasCollidedRef (initialObstaclesState\<lparr>obstacles := [rockObstacle 0, rockObstacle 1]\<rparr>)"
    by (simp add: initialObstaclesState_def)
  have a: "ob_active (rockObstacle 0)" "ob_active (rockObstacle 1)" by (simp_all add: rockObstacle_def)
  have o: "overlaps \<lparr>vx = 0, vy = 0, vz = 0\<rparr> (playerRadius 1)
       (map_of [(0, \<lparr>vx = 0, vy = 0, vz = 12 / 10\<rparr>), (1, \<lparr>vx = 0, vy = 0, vz = 12 / 10\<rparr>)])
       (rockObstacle 0)"
    "overlaps \<lparr>vx = 0, vy = 0, vz = 0\<rparr> (playerRadius 1)
       (map_of [(0, \<lparr>vx = 0, vy = 0, vz = 12 / 10\<rparr>), (1, \<lparr>vx = 0, vy = 0, vz = 12 / 10\<rparr>)])
       (rockObstacle 1)"
    by (simp_all only: rock_overlaps_two simp_thms)
  show ?thesis
    unfolding checkCollisions_count[OF n] using a o
    by (simp add: initialObstaclesState_def)
qed

section \<open>Spawning\<close>

lemma randomTypeIndex_range:
  assumes "0 \<le> r" "r < 1"
  shows "0 \<le> \<lfloor>r * real (length obstacleTypes)\<rfloor>"
    and "\<lfloor>r * real (length obstacleTypes)\<rfloor> < int (length obstacleTypes)"
  using assms by (simp_all add: obstacleTypes_def floor_less_iff)

lemma spawnObstacle_idle: "spawnObstacle False currentScore currentTime rnd st = Inr st"
  by (simp add: spawnObstacle_def)

lemma spawnObstacle_declines:
  assumes "getDifficultyFactor currentScore \<noteq> 0"
    and "currentTime - lastSpawnTimeRef st < OBSTACLE_SPAWN_RATE / getDifficultyFactor currentScore"
  shows "spawnObstacle True currentScore currentTime rnd st = Inr st"
  using assms by (simp add: spawnObstacle_def Let_def)

lemma spawnObstacle_spawns:
  assumes "getDifficultyFactor currentScore \<noteq> 0"
    and "\<not> currentTime - lastSpawnTimeRef st < OBSTACLE_SPAWN_RATE / getDifficultyFactor currentScore"
    and "0 \<le> rnd_type rnd" "rnd_type rnd < 1"
  shows "\<exists>st'. spawnObstacle True currentScore currentTime rnd st = Inr st'
    \<and> lastSpawnTimeRef st' = currentTime
    \<and> obstacleCounterRef st' = obstacleCounterRef st + 1
    \<and> hasCollidedRef st' = hasCollidedRef st
    \<and> onCollisionCalls st' = onCollisionCalls st
    \<and> (\<exists>newObstacle. obstacles st' = obstacles st @ [newObstacle]
          \<and> ob_id newObstacle = obstacleCounterRef st \<and> ob_active newObstacle
          \<and> vz (ob_position newObstacle) = - OBSTACLE_SPAWN_DISTANCE
          \<and> ob_speed newObstacle = INITIAL_SPEED * getDifficultyFactor currentScore)"
proof -
  note r = randomTypeIndex_range[OF assms(3,4)]
  have g: "\<not> (\<lfloor>rnd_type rnd * real (length obstacleTypes)\<rfloor> < 0
      \<or> \<lfloor>rnd_type rnd * real (length obstacleTypes)\<rfloor> \<ge> int (length obstacleTypes))"
    using r by simp
  show ?thesis
    unfolding spawnObstacle_def Let_def
    by (simp only: assms(1,2) g if_False if_True not_True_eq_False not_False_eq_True) simp
qed

text \<open>
  Claim C6. \<open>spawnObstacle\<close> does nothing when \<open>isPlaying\<close> is false. When it is true (and
  the difficulty factor \<open>1 + currentScore / 5000\<close> is not zero, as for every score from
  zero up), it spawns exactly when \<open>now - lastSpawnTime \<ge> 2000 / (1 + currentScore / 5000)\<close>:
  it then sets \<open>lastSpawnTime\<close> to \<open>now\<close> and appends one new active obstacle with the next
  id, and otherwise leaves the whole state unchanged. With \<open>lastSpawnTime = 1000\<close> and
  score zero (interval 2000) a call at 1500 changes nothing and a call at 3100 spawns an
  obstacle and sets \<open>lastSpawnTime = 3100\<close>. The draw that picks the obstacle type is a
  value of \<open>Math.random()\<close>, in \<open>[0, 1)\<close>.
\<close>

theorem spawnObstacle_gate:
  assumes "1 + currentScore / 5000 \<noteq> 0" and "0 \<le> rnd_type rnd" and "rnd_type rnd < 1"
  shows "spawnObstacle False currentScore currentTime rnd st = Inr st
    \<and> (\<exists>st'. spawnObstacle True currentScore currentTime rnd st = Inr st'
          \<and> (if currentTime - lastSpawnTimeRef st \<ge> 2000 / (1 + currentScore / 5000)
              then lastSpawnTimeRef st' = currentTime
                \<and> obstacleCounterRef st' = obstacleCounterRef st + 1
                \<and> (\<exists>newObstacle. obstacles st' = obstacles st @ [newObstacle]
                      \<and> ob_id newObstacle = obstacleCounterRef st \<and> ob_active newObstacle)
              else st' = st))
    \<and> spawnObstacle True 0 1500 rnd (initialObstaclesState\<lparr>lastSpawnTimeRef := 1000\<rparr>)
        = Inr (initialObstaclesState\<lparr>lastSpawnTimeRef := 1000\<rparr>)
    \<and> (\<exists>st'. spawnObstacle True 0 3100 rnd (initialObstaclesState\<lparr>lastSpawnTimeRef := 1000\<rparr>) = Inr st'
          \<and> lastSpawnTimeRef st' = 3100 \<and> length (obstacles st') = 1)"
proof (intro conjI)
  have d: "getDifficultyFactor currentScore \<noteq> 0" using assms(1) by (simp add: getDifficultyFactor_def)
  have iv: "OBSTACLE_SPAWN_RATE / getDifficultyFactor currentScore = 2000 / (1 + currentScore / 5000)"
    by (simp add: OBSTACLE_SPAWN_RATE_def getDifficultyFactor_def)
  show "spawnObstacle False currentScore currentTime rnd st = Inr st" by (rule spawnObstacle_idle)
  show "\<exists>st'. spawnObstacle True currentScore currentTime rnd st = Inr st'
          \<and> (if currentTime - lastSpawnTimeRef st \<ge> 2000 / (1 + currentScore / 5000)
              then lastSpawnTimeRef st' = currentTime
                \<and> obstacleCounterRef st' = obstacleCounterRef st + 1
                \<and> (\<exists>newObstacle. obstacles st' = obstacles st @ [newObstacle]
                      \<and> ob_id newObstacle = obstacleCounterRef st \<and> ob_active newObstacle)
              else st' = st)"
  proof (cases "currentTime - lastSpawnTimeRef st \<ge> 2000 / (1 + currentScore / 5000)")
    case True
    then have "\<not> currentTime - lastSpawnTimeRef st < OBSTACLE_SPAWN_RATE / getDifficultyFactor currentScore"
      unfolding iv by simp
    from spawnObstacle_spawns[OF d this assms(2,3)] True show ?thesis by auto
  next
    case False
    then have "currentTime - lastSpawnTimeRef st < OBSTACLE_SPAWN_RATE / getDifficultyFactor currentScore"
      unfolding iv by simp
    from spawnObstacle_declines[OF d this] False show ?thesis by simp
  qed
  have d0: "getDifficultyFactor 0 \<noteq> 0" by (simp add: getDifficultyFactor_def)
  let ?st = "initialObstaclesState\<lparr>lastSpawnTimeRef := 1000\<rparr>"
  have "1500 - lastSpawnTimeRef ?st < OBSTACLE_SPAWN_RATE / getDifficultyFactor 0"
    by (simp add: OBSTACLE_SPAWN_RATE_def getDifficultyFactor_def)
  from spawnObstacle_declines[OF d0 this]
  show "spawnObstacle True 0 1500 rnd ?st = Inr ?st" .
  have "\<not> 3100 - lastSpawnTimeRef ?st < OBSTACLE_SPAWN_RATE / getDifficultyFactor 0"
    by (simp add: OBSTACLE_SPAWN_RATE_def getDifficultyFactor_def)
  from spawnObstacle_spawns[OF d0 this assms(2,3)]
  show "\<exists>st'. spawnObstacle True 0 3100 rnd ?st = Inr st'
          \<and> lastSpawnTimeRef st' = 3100 \<and> length (obstacles st') = 1"
    by (auto simp: initialObstaclesState_def)
qed

theorem spawnObstacle_gate_witness:
  "\<exists>st'. spawnObstacle True 5000 2000 sampleDraws (initialObstaclesState\<lparr>lastSpawnTimeRef := 1000\<rparr>) = Inr st'
     \<and> lastSpawnTimeRef st' = 2000 \<and> obstacleCounterRef st' = 1
     \<and> (\<exists>newObstacle. obstacles st' = [newObstacle] \<and> ob_id newObstacle = 0 \<and> ob_active newObstacle)"
  using spawnObstacle_gate[where currentScore = 5000 and rnd = sampleDraws and currentTime = 2000
      and st = "initialObstaclesState\<lparr>lastSpawnTimeRef := 1000\<rparr>"]
  by (simp add: sampleDraws_def initialObstaclesState_def)

section \<open>Obstacle motion and culling\<close>

lemma updateObstacle_z:
  assumes "ob_active obstacle" and "groupObj (ob_id obstacle) = Some mesh"
  shows "vz (ob_position (updateObstacle (Some groupObj) elapsedTime delta obstacle))
    = vz (ob_position obstacle) + ob_speed obstacle * delta * 60"
  using assms by (simp add: updateObstacle_def Let_def)

lemma updateObstacle_shark:
  assumes "ob_active obstacle" and "groupObj (ob_id obstacle) = Some mesh"
    and "ob_type obstacle = shark" and "ob_movementPattern obstacle = Some zigzag"
    and "ob_animationOffset obstacle = 0"
  shows "ob_position (updateObstacle (Some groupObj) 0 (1 / 60) obstacle)
    = \<lparr>vx = vx (ob_position obstacle), vy = vy (ob_position obstacle),
       vz = vz (ob_position obstacle) + ob_speed obstacle\<rparr>"
  using assms by (simp add: updateObstacle_def Let_def)

lemma updateObstacle_inactive:
  "\<not> ob_active obstacle \<Longrightarrow> updateObstacle groupRef elapsedTime delta obstacle = obstacle"
  by (simp add: updateObstacle_def)

lemma updateObstacle_inactive_fold:
  "\<not> ob_active obstacle
    \<Longrightarrow> fold (\<lambda>(elapsedTime, delta). updateObstacle groupRef elapsedTime delta) frames obstacle
        = obstacle"
  by (induction frames) (auto simp: updateObstacle_inactive)

lemma updateObstacle_id: "ob_id (updateObstacle groupRef elapsedTime delta obstacle) = ob_id obstacle"
  by (simp add: updateObstacle_def Let_def split: option.splits)

lemma updateObstacle_active:
  assumes "ob_active obstacle" and "groupObj (ob_id obstacle) = Some mesh"
  shows "ob_active (updateObstacle (Some groupObj) elapsedTime delta obstacle)
    \<longleftrightarrow> \<not> vz (ob_position (updateObstacle (Some groupObj) elapsedTime delta obstacle)) > 20"
  using assms by (simp add: updateObstacle_def Let_def)

lemma updateObstacles_set:
  "set (updateObstacles groupRef elapsedTime delta prevObstacles)
     = {obstacle \<in> updateObstacle groupRef elapsedTime delta ` set prevObstacles. ob_active obstacle}"
  by (auto simp: updateObstacles_def)

lemma updateObstacles_ids:
  "ob_id ` set (updateObstacles groupRef elapsedTime delta prevObstacles) \<subseteq> ob_id ` set prevObstacles"
  by (auto simp: updateObstacles_def updateObstacle_id)

lemma checkCollisions_obstacles:
  "obstacles (checkCollisions isPlaying nemoRef groupRef rendered st) = obstacles st
   \<and> obstacleCounterRef (checkCollisions isPlaying nemoRef groupRef rendered st) = obstacleCounterRef st"
proof -
  have "obstacles (fold (collisionCallback np r g) obs st) = obstacles st
      \<and> obstacleCounterRef (fold (collisionCallback np r g) obs st) = obstacleCounterRef st"
    for np r g obs
    by (simp add: fold_collisionCallback)
  then show ?thesis
    by (simp add: checkCollisions_def Let_def split: option.splits)
qed

lemma spawnObstacle_ids:
  assumes "spawnObstacle isPlaying currentScore currentTime rnd st = Inr st'"
  shows "ob_id ` set (obstacles st') \<subseteq> insert (obstacleCounterRef st) (ob_id ` set (obstacles st))
    \<and> obstacleCounterRef st \<le> obstacleCounterRef st'"
  using assms
  by (auto simp: spawnObstacle_def Let_def split: if_splits)

lemma spawnObstacle_total:
  assumes "validDraws rnd"
  shows "\<exists>st'. spawnObstacle isPlaying currentScore currentTime rnd st = Inr st'"
proof -
  from assms have r: "0 \<le> rnd_type rnd" "rnd_type rnd < 1" by (simp_all add: validDraws_def)
  note i = randomTypeIndex_range[OF r]
  have g: "\<not> (\<lfloor>rnd_type rnd * real (length obstacleTypes)\<rfloor> < 0
      \<or> \<lfloor>rnd_type rnd * real (length obstacleTypes)\<rfloor> \<ge> int (length obstacleTypes))"
    using i by simp
  show ?thesis
    unfolding spawnObstacle_def Let_def
    by (simp only: g if_False split: if_splits) simp
qed

lemma useFrame_total:
  assumes "validDraws (fi_random inp)"
  shows "\<exists>st'. useFrame inp st = Inr st'"
proof -
  from spawnObstacle_total[OF assms] obtain st1 where
    "spawnObstacle (fi_isPlaying inp) (fi_score inp) (fi_now inp) (fi_random inp) st = Inr st1"
    by blast
  then show ?thesis by (cases "fi_isPlaying inp") (auto simp add: useFrame_def Let_def)
qed

lemma useFrame_ids:
  assumes "useFrame inp st = Inr st'" and "j < obstacleCounterRef st"
    and "j \<notin> ob_id ` set (obstacles st)"
  shows "j \<notin> ob_id ` set (obstacles st') \<and> j < obstacleCounterRef st'"
proof (cases "\<not> fi_isPlaying inp \<or> fi_groupRef inp = None")
  case True
  with assms show ?thesis by (simp add: useFrame_def)
next
  case False
  with assms(1) obtain st1 where
    s: "spawnObstacle (fi_isPlaying inp) (fi_score inp) (fi_now inp) (fi_random inp) st = Inr st1"
    and r: "st' = (checkCollisions (fi_isPlaying inp) (fi_nemoRef inp) (fi_groupRef inp) (obstacles st) st1)
        \<lparr>obstacles := updateObstacles (fi_groupRef inp) (fi_elapsedTime inp) (fi_delta inp)
            (obstacles (checkCollisions (fi_isPlaying inp) (fi_nemoRef inp) (fi_groupRef inp) (obstacles st) st1))\<rparr>"
    by (auto simp: useFrame_def Let_def split: sum.splits)
  note i = spawnObstacle_ids[OF s]
  from i assms(2,3) have 1: "j \<notin> ob_id ` set (obstacles st1)" "j < obstacleCounterRef st1" by auto
  have o: "obstacles st' = updateObstacles (fi_groupRef inp) (fi_elapsedTime inp) (fi_delta inp) (obstacles st1)"
    and c: "obstacleCounterRef st' = obstacleCounterRef st1"
    unfolding r by (simp_all add: checkCollisions_obstacles)
  from updateObstacles_ids[of "fi_groupRef inp" "fi_elapsedTime inp" "fi_delta inp" "obstacles st1"] 1(1)
  have "j \<notin> ob_id ` set (obstacles st')" unfolding o by blast
  with 1(2) c show ?thesis by simp
qed

lemma runFrames_ids:
  "\<forall>inp \<in> set inps. validDraws (fi_random inp) \<Longrightarrow> j < obstacleCounterRef st
    \<Longrightarrow> j \<notin> ob_id ` set (obstacles st)
    \<Longrightarrow> \<exists>st'. runFrames inps st = Inr st' \<and> j \<notin> ob_id ` set (obstacles st')
          \<and> j < obstacleCounterRef st'"
proof (induction inps arbitrary: st)
  case Nil
  then show ?case by simp
next
  case (Cons inp inps)
  from Cons.prems(1) have v: "validDraws (fi_random inp)" by simp
  from useFrame_total[OF v] obtain st1 where st1: "useFrame inp st = Inr st1" by blast
  note k = useFrame_ids[OF st1 Cons.prems(2,3)]
  from Cons.prems(1) have "\<forall>inp \<in> set inps. validDraws (fi_random inp)" by simp
  from Cons.IH[OF this] k obtain st' where "runFrames inps st1 = Inr st'"
    "j \<notin> ob_id ` set (obstacles st')" "j < obstacleCounterRef st'" by blast
  with st1 show ?case by simp
qed

lemma spawnObstacle_cases:
  assumes "spawnObstacle isPlaying currentScore currentTime rnd st = Inr st1"
  shows "st1 = st
    \<or> (\<exists>newObstacle. obstacles st1 = obstacles st @ [newObstacle]
          \<and> ob_id newObstacle = obstacleCounterRef st \<and> ob_active newObstacle
          \<and> obstacleCounterRef st1 = Suc (obstacleCounterRef st))"
  using assms
  by (auto simp: spawnObstacle_def Let_def split: if_splits)

lemma useFrame_runs:
  assumes "fi_isPlaying inp" and "fi_groupRef inp = Some grp" and "useFrame inp st = Inr st'"
  shows "\<exists>st1. spawnObstacle True (fi_score inp) (fi_now inp) (fi_random inp) st = Inr st1
    \<and> obstacles st' = updateObstacles (Some grp) (fi_elapsedTime inp) (fi_delta inp) (obstacles st1)
    \<and> obstacleCounterRef st' = obstacleCounterRef st1"
  using assms
  by (auto simp: useFrame_def Let_def checkCollisions_obstacles split: sum.splits)

lemma invariant_spawn:
  assumes "obstaclesInvariant st" and "spawnObstacle isPlaying currentScore currentTime rnd st = Inr st1"
  shows "obstaclesInvariant st1"
  using spawnObstacle_cases[OF assms(2)] assms(1)
  by (fastforce simp: obstaclesInvariant_def list_all_iff less_Suc_eq)

lemma updateObstacles_map_id:
  "map ob_id (map (updateObstacle groupRef elapsedTime delta) prevObstacles) = map ob_id prevObstacles"
  by (simp add: updateObstacle_id)

lemma updateObstacles_distinct:
  assumes "distinct (map ob_id prevObstacles)"
  shows "distinct (map ob_id (updateObstacles groupRef elapsedTime delta prevObstacles))"
proof -
  have "distinct (map ob_id (map (updateObstacle groupRef elapsedTime delta) prevObstacles))"
    using assms by (simp only: updateObstacles_map_id)
  then show ?thesis unfolding updateObstacles_def by (rule distinct_map_filter)
qed

lemma invariant_useFrame:
  assumes "obstaclesInvariant st" and "useFrame inp st = Inr st'"
  shows "obstaclesInvariant st'"
proof (cases "\<not> fi_isPlaying inp \<or> fi_groupRef inp = None")
  case True
  with assms show ?thesis by (simp add: useFrame_def)
next
  case False
  then obtain grp where g: "fi_isPlaying inp" "fi_groupRef inp = Some grp" by auto
  from useFrame_runs[OF g assms(2)] obtain st1 where
    s: "spawnObstacle True (fi_score inp) (fi_now inp) (fi_random inp) st = Inr st1"
    and o: "obstacles st' = updateObstacles (Some grp) (fi_elapsedTime inp) (fi_delta inp) (obstacles st1)"
    and c: "obstacleCounterRef st' = obstacleCounterRef st1" by blast
  from invariant_spawn[OF assms(1) s] have i: "obstaclesInvariant st1" .
  then have d: "distinct (map ob_id (obstacles st1))"
    and b: "\<forall>obstacle \<in> set (obstacles st1). ob_id obstacle < obstacleCounterRef st1"
    by (simp_all add: obstaclesInvariant_def list_all_iff)
  have "distinct (map ob_id (obstacles st'))" unfolding o using d by (rule updateObstacles_distinct)
  moreover have "\<forall>obstacle \<in> set (obstacles st'). ob_active obstacle"
    unfolding o by (simp add: updateObstacles_def)
  moreover have "\<forall>obstacle \<in> set (obstacles st'). ob_id obstacle < obstacleCounterRef st'"
    unfolding o c using b by (auto simp: updateObstacles_def updateObstacle_id)
  ultimately show ?thesis by (simp add: obstaclesInvariant_def list_all_iff)
qed

lemma updateObstacles_kept:
  assumes "obstacle \<in> set prevObstacles"
    and "ob_active (updateObstacle groupRef elapsedTime delta obstacle)"
  shows "updateObstacle groupRef elapsedTime delta obstacle
    \<in> set (updateObstacles groupRef elapsedTime delta prevObstacles)"
  using assms by (simp add: updateObstacles_def)

lemma updateObstacles_dropped:
  assumes "obstacle \<in> set prevObstacles" and "distinct (map ob_id prevObstacles)"
    and "\<not> ob_active (updateObstacle groupRef elapsedTime delta obstacle)"
  shows "ob_id obstacle \<notin> ob_id ` set (updateObstacles groupRef elapsedTime delta prevObstacles)"
proof
  assume "ob_id obstacle \<in> ob_id ` set (updateObstacles groupRef elapsedTime delta prevObstacles)"
  then obtain other where o: "other \<in> set prevObstacles"
    "ob_active (updateObstacle groupRef elapsedTime delta other)"
    "ob_id (updateObstacle groupRef elapsedTime delta other) = ob_id obstacle"
    by (auto simp: updateObstacles_def)
  from o(3) have "ob_id other = ob_id obstacle" by (simp add: updateObstacle_id)
  moreover from assms(2) have "inj_on ob_id (set prevObstacles)" by (simp add: distinct_map)
  ultimately have "other = obstacle" using o(1) assms(1) by (auto dest: inj_onD)
  with o(2) assms(3) show False by simp
qed


lemma useFrame_result:
  assumes "fi_isPlaying inp" and "fi_groupRef inp = Some grp" and "validDraws (fi_random inp)"
  shows "\<exists>st1 st'. spawnObstacle True (fi_score inp) (fi_now inp) (fi_random inp) st = Inr st1
    \<and> useFrame inp st = Inr st'
    \<and> obstacles st' = updateObstacles (Some grp) (fi_elapsedTime inp) (fi_delta inp) (obstacles st1)
    \<and> obstacleCounterRef st' = obstacleCounterRef st1"
proof -
  from useFrame_total[OF assms(3)] obtain st' where u: "useFrame inp st = Inr st'" by blast
  from useFrame_runs[OF assms(1,2) u] u show ?thesis by blast
qed

lemma spawnObstacle_keeps:
  assumes "spawnObstacle isPlaying currentScore currentTime rnd st = Inr st1"
  shows "set (obstacles st) \<subseteq> set (obstacles st1) \<and> obstacleCounterRef st \<le> obstacleCounterRef st1"
  using spawnObstacle_cases[OF assms] by auto

lemma useFrame_keeps:
  assumes "fi_isPlaying inp" and "fi_groupRef inp = Some grp" and "validDraws (fi_random inp)"
    and "obstacle \<in> set (obstacles st)" and "ob_active obstacle"
    and "grp (ob_id obstacle) = Some mesh"
    and "\<not> 20 < vz (ob_position obstacle) + ob_speed obstacle * fi_delta inp * 60"
  shows "\<exists>st'. useFrame inp st = Inr st'
    \<and> updateObstacle (Some grp) (fi_elapsedTime inp) (fi_delta inp) obstacle \<in> set (obstacles st')
    \<and> vz (ob_position (updateObstacle (Some grp) (fi_elapsedTime inp) (fi_delta inp) obstacle))
        = vz (ob_position obstacle) + ob_speed obstacle * fi_delta inp * 60"
proof -
  let ?u = "updateObstacle (Some grp) (fi_elapsedTime inp) (fi_delta inp) obstacle"
  from useFrame_result[OF assms(1,2,3), of st] obtain st1 st' where
    s: "spawnObstacle True (fi_score inp) (fi_now inp) (fi_random inp) st = Inr st1"
    and u: "useFrame inp st = Inr st'"
    and o: "obstacles st' = updateObstacles (Some grp) (fi_elapsedTime inp) (fi_delta inp) (obstacles st1)"
    by blast
  have z: "vz (ob_position ?u) = vz (ob_position obstacle) + ob_speed obstacle * fi_delta inp * 60"
    using assms(5,6) by (rule updateObstacle_z)
  have "ob_active ?u"
    using updateObstacle_active[where obstacle = obstacle and groupObj = grp and mesh = mesh
        and elapsedTime = "fi_elapsedTime inp" and delta = "fi_delta inp"] assms(5,6,7) z
    by simp
  moreover from spawnObstacle_keeps[OF s] assms(4) have "obstacle \<in> set (obstacles st1)" by blast
  ultimately have "?u \<in> set (obstacles st')" unfolding o by (intro updateObstacles_kept)
  with u z show ?thesis by blast
qed

lemma useFrame_culls:
  assumes "fi_isPlaying inp" and "fi_groupRef inp = Some grp" and "validDraws (fi_random inp)"
    and "obstaclesInvariant st" and "obstacle \<in> set (obstacles st)"
    and "grp (ob_id obstacle) = Some mesh"
    and "20 < vz (ob_position obstacle) + ob_speed obstacle * fi_delta inp * 60"
  shows "\<exists>st'. useFrame inp st = Inr st' \<and> obstaclesInvariant st'
    \<and> ob_id obstacle \<notin> ob_id ` set (obstacles st')
    \<and> ob_id obstacle < obstacleCounterRef st'"
proof -
  let ?u = "updateObstacle (Some grp) (fi_elapsedTime inp) (fi_delta inp) obstacle"
  from useFrame_result[OF assms(1,2,3), of st] obtain st1 st' where
    s: "spawnObstacle True (fi_score inp) (fi_now inp) (fi_random inp) st = Inr st1"
    and u: "useFrame inp st = Inr st'"
    and o: "obstacles st' = updateObstacles (Some grp) (fi_elapsedTime inp) (fi_delta inp) (obstacles st1)"
    and c: "obstacleCounterRef st' = obstacleCounterRef st1"
    by blast
  from assms(4,5) have a: "ob_active obstacle" and b: "ob_id obstacle < obstacleCounterRef st"
    by (simp_all add: obstaclesInvariant_def list_all_iff)
  have z: "vz (ob_position ?u) = vz (ob_position obstacle) + ob_speed obstacle * fi_delta inp * 60"
    using a assms(6) by (rule updateObstacle_z)
  have n: "\<not> ob_active ?u"
    using updateObstacle_active[where obstacle = obstacle and groupObj = grp and mesh = mesh
        and elapsedTime = "fi_elapsedTime inp" and delta = "fi_delta inp"] a assms(6,7) z
    by simp
  from invariant_spawn[OF assms(4) s] have "distinct (map ob_id (obstacles st1))"
    by (simp add: obstaclesInvariant_def)
  moreover from spawnObstacle_keeps[OF s] assms(5) have "obstacle \<in> set (obstacles st1)" by blast
  ultimately have "ob_id obstacle \<notin> ob_id ` set (obstacles st')"
    unfolding o using n by (intro updateObstacles_dropped)
  moreover have "ob_id obstacle < obstacleCounterRef st'"
    using b spawnObstacle_keeps[OF s] c by simp
  moreover have "obstaclesInvariant st'" using assms(4) u by (rule invariant_useFrame)
  ultimately show ?thesis using u by blast
qed

lemma invariant_initial: "obstaclesInvariant initialObstaclesState"
  by (simp add: obstaclesInvariant_def initialObstaclesState_def)

lemma updateObstacle_no_mesh:
  "groupObj (ob_id obstacle) = None
    \<Longrightarrow> updateObstacle (Some groupObj) elapsedTime delta obstacle = obstacle"
  by (simp add: updateObstacle_def)

text \<open>
  Claim C7, as amended. The frame update of an active obstacle whose mesh exists in the
  rendered group adds \<open>speed * delta * 60\<close> to its z coordinate; an obstacle whose mesh
  does not exist is returned unchanged. In a frame that runs, an active obstacle of the
  collection whose mesh exists and whose new z does not exceed 20 is in the collection
  afterwards with its z advanced by \<open>speed * delta * 60\<close>. For a shark with the zigzag
  pattern, animation offset 0, frequency 0.5 and amplitude 1.5 whose mesh exists, updated
  at elapsed time 0 with \<open>delta = 1/60\<close>, both sine overlays are \<open>sin 0 = 0\<close>: x and y
  are unchanged and z grows by exactly \<open>speed\<close>.
\<close>

theorem updateObstacle_forward:
  "(ob_active obstacle \<and> groupObj (ob_id obstacle) = Some mesh
      \<longrightarrow> vz (ob_position (updateObstacle (Some groupObj) elapsedTime delta obstacle))
            = vz (ob_position obstacle) + ob_speed obstacle * delta * 60
          \<and> (ob_type obstacle = shark \<and> ob_movementPattern obstacle = Some zigzag
              \<and> ob_animationOffset obstacle = 0 \<and> ob_frequency obstacle = 5 / 10
              \<and> ob_amplitude obstacle = 15 / 10
             \<longrightarrow> ob_position (updateObstacle (Some groupObj) 0 (1 / 60) obstacle)
                 = \<lparr>vx = vx (ob_position obstacle), vy = vy (ob_position obstacle),
                    vz = vz (ob_position obstacle) + ob_speed obstacle\<rparr>))
   \<and> (groupObj (ob_id obstacle) = None
      \<longrightarrow> updateObstacle (Some groupObj) elapsedTime delta obstacle = obstacle)
   \<and> (fi_isPlaying frame \<and> fi_groupRef frame = Some groupObj \<and> validDraws (fi_random frame)
       \<and> obstacle \<in> set (obstacles st) \<and> ob_active obstacle
       \<and> groupObj (ob_id obstacle) = Some mesh
       \<and> \<not> 20 < vz (ob_position obstacle) + ob_speed obstacle * fi_delta frame * 60
      \<longrightarrow> (\<exists>st'. useFrame frame st = Inr st'
            \<and> updateObstacle (Some groupObj) (fi_elapsedTime frame) (fi_delta frame) obstacle
                 \<in> set (obstacles st')
            \<and> vz (ob_position
                  (updateObstacle (Some groupObj) (fi_elapsedTime frame) (fi_delta frame) obstacle))
                = vz (ob_position obstacle) + ob_speed obstacle * fi_delta frame * 60))"
proof (intro conjI impI)
  assume h: "ob_active obstacle \<and> groupObj (ob_id obstacle) = Some mesh"
  then show "vz (ob_position (updateObstacle (Some groupObj) elapsedTime delta obstacle))
      = vz (ob_position obstacle) + ob_speed obstacle * delta * 60"
    using updateObstacle_z[where obstacle = obstacle and groupObj = groupObj and mesh = mesh]
    by blast
  assume "ob_type obstacle = shark \<and> ob_movementPattern obstacle = Some zigzag
      \<and> ob_animationOffset obstacle = 0 \<and> ob_frequency obstacle = 5 / 10
      \<and> ob_amplitude obstacle = 15 / 10"
  with h show "ob_position (updateObstacle (Some groupObj) 0 (1 / 60) obstacle)
      = \<lparr>vx = vx (ob_position obstacle), vy = vy (ob_position obstacle),
         vz = vz (ob_position obstacle) + ob_speed obstacle\<rparr>"
    using updateObstacle_shark[where obstacle = obstacle and groupObj = groupObj and mesh = mesh]
    by blast
next
  assume "groupObj (ob_id obstacle) = None"
  then show "updateObstacle (Some groupObj) elapsedTime delta obstacle = obstacle"
    by (rule updateObstacle_no_mesh)
next
  assume "fi_isPlaying frame \<and> fi_groupRef frame = Some groupObj \<and> validDraws (fi_random frame)
       \<and> obstacle \<in> set (obstacles st) \<and> ob_active obstacle
       \<and> groupObj (ob_id obstacle) = Some mesh
       \<and> \<not> 20 < vz (ob_position obstacle) + ob_speed obstacle * fi_delta frame * 60"
  then show "\<exists>st'. useFrame frame st = Inr st'
            \<and> updateObstacle (Some groupObj) (fi_elapsedTime frame) (fi_delta frame) obstacle
                 \<in> set (obstacles st')
            \<and> vz (ob_position
                  (updateObstacle (Some groupObj) (fi_elapsedTime frame) (fi_delta frame) obstacle))
                = vz (ob_position obstacle) + ob_speed obstacle * fi_delta frame * 60"
    using useFrame_keeps[where inp = frame and grp = groupObj and obstacle = obstacle
        and st = st and mesh = mesh]
    by blast
qed

theorem updateObstacle_forward_witness:
  "ob_position (updateObstacle (Some (map_of [(0, \<lparr>vx = 0, vy = 0, vz = - 100\<rparr>)])) 0 (1 / 60) (sharkObstacle 0))
     = \<lparr>vx = 0, vy = 0, vz = - 100 + 5 / 10\<rparr>
   \<and> vz (ob_position (updateObstacle (Some (map_of [(0, \<lparr>vx = 0, vy = 0, vz = - 100\<rparr>)])) 7 (1 / 30) (sharkObstacle 0)))
     = - 99
   \<and> updateObstacle (Some Map.empty) 7 (1 / 30) (sharkObstacle 0) = sharkObstacle 0
   \<and> (\<exists>st'. useFrame (sampleFrame (map_of [(0, \<lparr>vx = 0, vy = 0, vz = - 100\<rparr>)]))
          (initialObstaclesState\<lparr>obstacles := [sharkObstacle 0], obstacleCounterRef := 1\<rparr>) = Inr st'
        \<and> updateObstacle (Some (map_of [(0, \<lparr>vx = 0, vy = 0, vz = - 100\<rparr>)])) 0 (1 / 60) (sharkObstacle 0)
             \<in> set (obstacles st'))"
proof -
  let ?g = "map_of [(0::nat, \<lparr>vx = 0, vy = 0, vz = - 100\<rparr>)]"
  let ?s = "initialObstaclesState\<lparr>obstacles := [sharkObstacle 0], obstacleCounterRef := 1\<rparr>"
  note t = updateObstacle_forward[where obstacle = "sharkObstacle 0" and groupObj = ?g
      and mesh = "\<lparr>vx = 0, vy = 0, vz = - 100\<rparr>" and frame = "sampleFrame ?g" and st = ?s]
  note n = updateObstacle_forward[where obstacle = "sharkObstacle 0" and groupObj = Map.empty
      and elapsedTime = 7 and delta = "1 / 30"]
  have a: "ob_active (sharkObstacle 0) \<and> ?g (ob_id (sharkObstacle 0)) = Some \<lparr>vx = 0, vy = 0, vz = - 100\<rparr>"
    by (simp add: sharkObstacle_def)
  have k: "ob_type (sharkObstacle 0) = shark \<and> ob_movementPattern (sharkObstacle 0) = Some zigzag
      \<and> ob_animationOffset (sharkObstacle 0) = 0 \<and> ob_frequency (sharkObstacle 0) = 5 / 10
      \<and> ob_amplitude (sharkObstacle 0) = 15 / 10"
    by (simp add: sharkObstacle_def)
  have p: "ob_position (sharkObstacle 0) = \<lparr>vx = 0, vy = 0, vz = - 100\<rparr>"
    and sp: "ob_speed (sharkObstacle 0) = 5 / 10"
    by (simp_all add: sharkObstacle_def)
  from t[where elapsedTime = 0 and delta = "1 / 60"] a k
  have "ob_position (updateObstacle (Some ?g) 0 (1 / 60) (sharkObstacle 0))
      = \<lparr>vx = vx (ob_position (sharkObstacle 0)), vy = vy (ob_position (sharkObstacle 0)),
         vz = vz (ob_position (sharkObstacle 0)) + ob_speed (sharkObstacle 0)\<rparr>"
    by blast
  then have 1: "ob_position (updateObstacle (Some ?g) 0 (1 / 60) (sharkObstacle 0))
      = \<lparr>vx = 0, vy = 0, vz = - 100 + 5 / 10\<rparr>"
    by (simp add: p sp)
  from t[where elapsedTime = 7 and delta = "1 / 30"] a
  have "vz (ob_position (updateObstacle (Some ?g) 7 (1 / 30) (sharkObstacle 0)))
      = vz (ob_position (sharkObstacle 0)) + ob_speed (sharkObstacle 0) * (1 / 30) * 60"
    by blast
  then have 2: "vz (ob_position (updateObstacle (Some ?g) 7 (1 / 30) (sharkObstacle 0))) = - 99"
    by (simp add: p sp)
  from n have 3: "updateObstacle (Some Map.empty) 7 (1 / 30) (sharkObstacle 0) = sharkObstacle 0"
    by simp
  have h: "fi_isPlaying (sampleFrame ?g) \<and> fi_groupRef (sampleFrame ?g) = Some ?g
      \<and> validDraws (fi_random (sampleFrame ?g))
      \<and> sharkObstacle 0 \<in> set (obstacles ?s) \<and> ob_active (sharkObstacle 0)
      \<and> ?g (ob_id (sharkObstacle 0)) = Some \<lparr>vx = 0, vy = 0, vz = - 100\<rparr>
      \<and> \<not> 20 < vz (ob_position (sharkObstacle 0))
            + ob_speed (sharkObstacle 0) * fi_delta (sampleFrame ?g) * 60"
  proof (intro conjI)
    show "fi_isPlaying (sampleFrame ?g)" by (simp add: sampleFrame_def)
    show "fi_groupRef (sampleFrame ?g) = Some ?g" by (simp add: sampleFrame_def)
    show "validDraws (fi_random (sampleFrame ?g))"
      by (simp add: sampleFrame_def sampleDraws_def validDraws_def)
    show "sharkObstacle 0 \<in> set (obstacles ?s)" by simp
    show "ob_active (sharkObstacle 0)" using a by simp
    show "?g (ob_id (sharkObstacle 0)) = Some \<lparr>vx = 0, vy = 0, vz = - 100\<rparr>" using a by simp
    show "\<not> 20 < vz (ob_position (sharkObstacle 0))
            + ob_speed (sharkObstacle 0) * fi_delta (sampleFrame ?g) * 60"
      by (simp add: p sp sampleFrame_def)
  qed
  have f: "fi_elapsedTime (sampleFrame ?g) = 0" "fi_delta (sampleFrame ?g) = 1 / 60"
    by (simp_all add: sampleFrame_def)
  from t[where elapsedTime = 0 and delta = "1 / 60"] h
  have 4: "\<exists>st'. useFrame (sampleFrame ?g) ?s = Inr st'
        \<and> updateObstacle (Some ?g) 0 (1 / 60) (sharkObstacle 0) \<in> set (obstacles st')"
    unfolding f by blast
  from 1 2 3 4 show ?thesis by blast
qed

text \<open>
  As stated, the claim has every frame advance every active obstacle. The update skips
  an obstacle whose mesh is not in the group (\<open>if (!obstacleMesh) return obstacle\<close>): an
  active shark without a mesh keeps its z, and the frame that spawns an obstacle leaves it
  at the spawn distance.
\<close>

theorem active_obstacle_without_mesh_not_advanced:
  "ob_active (sharkObstacle 0)
   \<and> vz (ob_position (updateObstacle (Some Map.empty) 0 (1 / 60) (sharkObstacle 0))) = - 100
   \<and> vz (ob_position (sharkObstacle 0)) + ob_speed (sharkObstacle 0) * (1 / 60) * 60 = - 100 + 5 / 10
   \<and> useFrame (sampleFrame Map.empty) initialObstaclesState
       = Inr (initialObstaclesState\<lparr>lastSpawnTimeRef := 5000, obstacleCounterRef := 1,
               obstacles := [rockObstacle 0]\<rparr>)
   \<and> vz (ob_position (rockObstacle 0)) = - OBSTACLE_SPAWN_DISTANCE"
proof -
  have "spawnObstacle True 0 5000 sampleDraws initialObstaclesState
      = Inr (initialObstaclesState\<lparr>lastSpawnTimeRef := 5000, obstacleCounterRef := 1,
               obstacles := [rockObstacle 0]\<rparr>)"
    by (simp add: spawnObstacle_def getDifficultyFactor_def OBSTACLE_SPAWN_RATE_def
        OBSTACLE_SPAWN_DISTANCE_def INITIAL_SPEED_def sampleDraws_def initialObstaclesState_def
        obstacleTypes_def rockObstacle_def orDefault_def Let_def)
  then have "useFrame (sampleFrame Map.empty) initialObstaclesState
       = Inr (initialObstaclesState\<lparr>lastSpawnTimeRef := 5000, obstacleCounterRef := 1,
               obstacles := [rockObstacle 0]\<rparr>)"
    by (simp add: useFrame_def sampleFrame_def checkCollisions_def updateObstacles_def
        updateObstacle_def rockObstacle_def initialObstaclesState_def)
  then show ?thesis
    by (simp add: updateObstacle_def sharkObstacle_def rockObstacle_def OBSTACLE_SPAWN_DISTANCE_def)
qed

text \<open>
  Claim C8. The update of an active obstacle (whose mesh exists) clears its \<open>active\<close>
  flag exactly when its z coordinate after the position update exceeds 20; an inactive
  obstacle is returned as it is by any number of updates, so the flag is never set again.
  The collection after the update holds exactly the updated obstacles that are still
  active. For the frame callback: starting from a collection with pairwise different ids
  below the counter and only active obstacles (as the initial one is, and as every frame
  leaves it), a frame that runs leaves only active obstacles; an obstacle whose z after
  the update exceeds 20 is gone from the collection after that frame and after every
  later sequence of frames, and an obstacle whose z does not exceed 20 is still there,
  updated. Ids are never reused, so an obstacle that has been spawned and is no longer in
  the collection is in it after no later sequence of frames.
\<close>

theorem obstacle_culled_once:
  assumes "\<forall>inp \<in> set inps. validDraws (fi_random inp)"
  shows "(ob_active obstacle \<and> groupObj (ob_id obstacle) = Some mesh
          \<longrightarrow> (ob_active (updateObstacle (Some groupObj) elapsedTime delta obstacle)
                \<longleftrightarrow> \<not> vz (ob_position (updateObstacle (Some groupObj) elapsedTime delta obstacle)) > 20))
    \<and> (\<not> ob_active obstacle \<longrightarrow> updateObstacle groupRef elapsedTime delta obstacle = obstacle)
    \<and> (\<not> ob_active obstacle
          \<longrightarrow> fold (\<lambda>(elapsedTime, delta). updateObstacle groupRef elapsedTime delta) frames obstacle
              = obstacle)
    \<and> set (updateObstacles groupRef elapsedTime delta prevObstacles)
        = {obstacle' \<in> updateObstacle groupRef elapsedTime delta ` set prevObstacles. ob_active obstacle'}
    \<and> (\<forall>obstacle' \<in> set (updateObstacles groupRef elapsedTime delta prevObstacles). ob_active obstacle')
    \<and> (j < obstacleCounterRef st \<and> j \<notin> ob_id ` set (obstacles st)
          \<longrightarrow> (\<exists>st'. runFrames inps st = Inr st' \<and> j \<notin> ob_id ` set (obstacles st')
                \<and> j < obstacleCounterRef st'))
    \<and> obstaclesInvariant initialObstaclesState
    \<and> (obstaclesInvariant st \<and> useFrame frame st = Inr st1 \<longrightarrow> obstaclesInvariant st1)
    \<and> (fi_isPlaying frame \<and> fi_groupRef frame = Some groupObj \<and> validDraws (fi_random frame)
        \<and> obstaclesInvariant st \<and> obstacle \<in> set (obstacles st)
        \<and> groupObj (ob_id obstacle) = Some mesh
          \<longrightarrow> (\<exists>st'. useFrame frame st = Inr st'
                \<and> (\<forall>obstacle' \<in> set (obstacles st'). ob_active obstacle')
                \<and> (if 20 < vz (ob_position obstacle) + ob_speed obstacle * fi_delta frame * 60
                    then ob_id obstacle \<notin> ob_id ` set (obstacles st')
                      \<and> (\<exists>st''. runFrames inps st' = Inr st''
                            \<and> ob_id obstacle \<notin> ob_id ` set (obstacles st''))
                    else updateObstacle (Some groupObj) (fi_elapsedTime frame) (fi_delta frame) obstacle
                           \<in> set (obstacles st'))))"
proof (intro conjI impI)
  assume "ob_active obstacle \<and> groupObj (ob_id obstacle) = Some mesh"
  then show "ob_active (updateObstacle (Some groupObj) elapsedTime delta obstacle)
      \<longleftrightarrow> \<not> vz (ob_position (updateObstacle (Some groupObj) elapsedTime delta obstacle)) > 20"
    using updateObstacle_active[where obstacle = obstacle and groupObj = groupObj and mesh = mesh]
    by blast
next
  assume "\<not> ob_active obstacle"
  then show "updateObstacle groupRef elapsedTime delta obstacle = obstacle"
    by (rule updateObstacle_inactive)
next
  assume "\<not> ob_active obstacle"
  then show "fold (\<lambda>(elapsedTime, delta). updateObstacle groupRef elapsedTime delta) frames obstacle
      = obstacle"
    by (rule updateObstacle_inactive_fold)
next
  show "set (updateObstacles groupRef elapsedTime delta prevObstacles)
        = {obstacle' \<in> updateObstacle groupRef elapsedTime delta ` set prevObstacles. ob_active obstacle'}"
    by (rule updateObstacles_set)
next
  show "\<forall>obstacle' \<in> set (updateObstacles groupRef elapsedTime delta prevObstacles). ob_active obstacle'"
    by (simp add: updateObstacles_def)
next
  assume "j < obstacleCounterRef st \<and> j \<notin> ob_id ` set (obstacles st)"
  with assms show "\<exists>st'. runFrames inps st = Inr st' \<and> j \<notin> ob_id ` set (obstacles st')
                \<and> j < obstacleCounterRef st'"
    using runFrames_ids[of inps j st] by blast
next
  show "obstaclesInvariant initialObstaclesState" by (rule invariant_initial)
next
  assume "obstaclesInvariant st \<and> useFrame frame st = Inr st1"
  then show "obstaclesInvariant st1" using invariant_useFrame by blast
next
  assume h: "fi_isPlaying frame \<and> fi_groupRef frame = Some groupObj \<and> validDraws (fi_random frame)
        \<and> obstaclesInvariant st \<and> obstacle \<in> set (obstacles st)
        \<and> groupObj (ob_id obstacle) = Some mesh"
  then have p: "fi_isPlaying frame" and g: "fi_groupRef frame = Some groupObj"
    and v: "validDraws (fi_random frame)" and i: "obstaclesInvariant st"
    and m: "obstacle \<in> set (obstacles st)" and e: "groupObj (ob_id obstacle) = Some mesh"
    by simp_all
  from i m have a: "ob_active obstacle" by (simp add: obstaclesInvariant_def list_all_iff)
  show "\<exists>st'. useFrame frame st = Inr st'
                \<and> (\<forall>obstacle' \<in> set (obstacles st'). ob_active obstacle')
                \<and> (if 20 < vz (ob_position obstacle) + ob_speed obstacle * fi_delta frame * 60
                    then ob_id obstacle \<notin> ob_id ` set (obstacles st')
                      \<and> (\<exists>st''. runFrames inps st' = Inr st''
                            \<and> ob_id obstacle \<notin> ob_id ` set (obstacles st''))
                    else updateObstacle (Some groupObj) (fi_elapsedTime frame) (fi_delta frame) obstacle
                           \<in> set (obstacles st'))"
  proof (cases "20 < vz (ob_position obstacle) + ob_speed obstacle * fi_delta frame * 60")
    case True
    from useFrame_culls[OF p g v i m e True] obtain st' where
      u: "useFrame frame st = Inr st'" and i': "obstaclesInvariant st'"
      and d: "ob_id obstacle \<notin> ob_id ` set (obstacles st')"
      and c: "ob_id obstacle < obstacleCounterRef st'" by blast
    from runFrames_ids[OF assms c d] obtain st'' where
      "runFrames inps st' = Inr st''" "ob_id obstacle \<notin> ob_id ` set (obstacles st'')" by blast
    moreover from i' have "\<forall>obstacle' \<in> set (obstacles st'). ob_active obstacle'"
      by (simp add: obstaclesInvariant_def list_all_iff)
    ultimately show ?thesis using u d True by auto
  next
    case False
    from useFrame_keeps[OF p g v m a e False] obtain st' where
      u: "useFrame frame st = Inr st'"
      and k: "updateObstacle (Some groupObj) (fi_elapsedTime frame) (fi_delta frame) obstacle
          \<in> set (obstacles st')" by blast
    from invariant_useFrame[OF i u] have "\<forall>obstacle' \<in> set (obstacles st'). ob_active obstacle'"
      by (simp add: obstaclesInvariant_def list_all_iff)
    with u k False show ?thesis by auto
  qed
qed

theorem obstacle_culled_once_witness:
  "\<not> ob_active (updateObstacle (Some (map_of [(0, \<lparr>vx = 0, vy = - 2, vz = 199 / 10\<rparr>)])) 0 (1 / 60)
        ((rockObstacle 0)\<lparr>ob_position := \<lparr>vx = 0, vy = - 2, vz = 199 / 10\<rparr>\<rparr>))
   \<and> (\<exists>st'. useFrame (sampleFrame (map_of [(0, \<lparr>vx = 0, vy = - 2, vz = 199 / 10\<rparr>)]))
          (initialObstaclesState\<lparr>obstacles :=
             [(rockObstacle 0)\<lparr>ob_position := \<lparr>vx = 0, vy = - 2, vz = 199 / 10\<rparr>\<rparr>],
             obstacleCounterRef := 1\<rparr>) = Inr st'
        \<and> 0 \<notin> ob_id ` set (obstacles st')
        \<and> (\<exists>st''. runFrames [sampleFrame Map.empty, sampleFrame Map.empty] st' = Inr st''
              \<and> 0 \<notin> ob_id ` set (obstacles st'')))
   \<and> (\<exists>st'. runFrames [sampleFrame Map.empty, sampleFrame Map.empty]
          (initialObstaclesState\<lparr>obstacleCounterRef := 1\<rparr>) = Inr st'
        \<and> 0 \<notin> ob_id ` set (obstacles st') \<and> 0 < obstacleCounterRef st')"
proof -
  let ?g = "map_of [(0::nat, \<lparr>vx = 0, vy = - 2, vz = 199 / 10\<rparr>)]"
  let ?o = "(rockObstacle 0)\<lparr>ob_position := \<lparr>vx = 0, vy = - 2, vz = 199 / 10\<rparr>\<rparr>"
  let ?st = "initialObstaclesState\<lparr>obstacles := [?o], obstacleCounterRef := 1\<rparr>"
  let ?culled = "initialObstaclesState\<lparr>obstacleCounterRef := 1\<rparr>"
  let ?inps = "[sampleFrame Map.empty, sampleFrame Map.empty]"
  have v: "\<forall>inp \<in> set ?inps. validDraws (fi_random inp)"
    by (simp add: sampleFrame_def sampleDraws_def validDraws_def)
  note t = obstacle_culled_once[OF v, where obstacle = ?o and groupObj = ?g
      and mesh = "\<lparr>vx = 0, vy = - 2, vz = 199 / 10\<rparr>" and elapsedTime = 0 and delta = "1 / 60"
      and frame = "sampleFrame ?g" and st = ?st and j = 0]
  note t0 = obstacle_culled_once[OF v, where j = 0 and st = ?culled]
  have a: "ob_active ?o \<and> ?g (ob_id ?o) = Some \<lparr>vx = 0, vy = - 2, vz = 199 / 10\<rparr>"
    by (simp add: rockObstacle_def)
  have z: "vz (ob_position (updateObstacle (Some ?g) 0 (1 / 60) ?o)) > 20"
    by (simp add: updateObstacle_def rockObstacle_def Let_def)
  have h: "fi_isPlaying (sampleFrame ?g) \<and> fi_groupRef (sampleFrame ?g) = Some ?g
      \<and> validDraws (fi_random (sampleFrame ?g)) \<and> obstaclesInvariant ?st
      \<and> ?o \<in> set (obstacles ?st) \<and> ?g (ob_id ?o) = Some \<lparr>vx = 0, vy = - 2, vz = 199 / 10\<rparr>"
  proof (intro conjI)
    show "fi_isPlaying (sampleFrame ?g)" by (simp add: sampleFrame_def)
    show "fi_groupRef (sampleFrame ?g) = Some ?g" by (simp add: sampleFrame_def)
    show "validDraws (fi_random (sampleFrame ?g))"
      by (simp add: sampleFrame_def sampleDraws_def validDraws_def)
    show "obstaclesInvariant ?st"
      by (simp add: obstaclesInvariant_def initialObstaclesState_def rockObstacle_def)
    show "?o \<in> set (obstacles ?st)" by simp
    show "?g (ob_id ?o) = Some \<lparr>vx = 0, vy = - 2, vz = 199 / 10\<rparr>"
      by (simp add: rockObstacle_def)
  qed
  have c: "20 < vz (ob_position ?o) + ob_speed ?o * fi_delta (sampleFrame ?g) * 60"
    by (simp add: rockObstacle_def sampleFrame_def)
  have i: "ob_id ?o = 0" by (simp add: rockObstacle_def)
  have j: "0 < obstacleCounterRef ?culled \<and> 0 \<notin> ob_id ` set (obstacles ?culled)"
    by (simp add: initialObstaclesState_def)
  from t a z have 1: "\<not> ob_active (updateObstacle (Some ?g) 0 (1 / 60) ?o)" by blast
  from t h have "\<exists>st'. useFrame (sampleFrame ?g) ?st = Inr st'
        \<and> (\<forall>obstacle' \<in> set (obstacles st'). ob_active obstacle')
        \<and> (if 20 < vz (ob_position ?o) + ob_speed ?o * fi_delta (sampleFrame ?g) * 60
            then ob_id ?o \<notin> ob_id ` set (obstacles st')
              \<and> (\<exists>st''. runFrames ?inps st' = Inr st'' \<and> ob_id ?o \<notin> ob_id ` set (obstacles st''))
            else updateObstacle (Some ?g) (fi_elapsedTime (sampleFrame ?g)) (fi_delta (sampleFrame ?g)) ?o
                   \<in> set (obstacles st'))"
    by blast
  then have 2: "\<exists>st'. useFrame (sampleFrame ?g) ?st = Inr st'
        \<and> 0 \<notin> ob_id ` set (obstacles st')
        \<and> (\<exists>st''. runFrames ?inps st' = Inr st'' \<and> 0 \<notin> ob_id ` set (obstacles st''))"
    unfolding if_P[OF c] i by blast
  from t0 j have 3: "\<exists>st'. runFrames ?inps ?culled = Inr st'
        \<and> 0 \<notin> ob_id ` set (obstacles st') \<and> 0 < obstacleCounterRef st'" by blast
  from 1 2 3 show ?thesis by blast
qed

end
